theory Spec2Isabelle
  imports Complex_Main "HOL-Library.Word"
begin

unbundle bit_operations_syntax

section \<open>The text layout engine of juce\_TextLayout.cpp\<close>

text \<open>
  A shallow embedding of \<^verbatim>\<open>src/juce_TextLayout.cpp\<close>. Conventions:
  \<^item> \<^verbatim>\<open>float\<close> values are idealised as \<^typ>\<open>real\<close>: rounding, infinities and NaN are
    not modelled. Every concrete input below uses small integers, which \<^verbatim>\<open>float\<close>
    represents exactly.
  \<^item> \<^verbatim>\<open>int\<close> values are \<^typ>\<open>int\<close>; signed overflow is undefined in C++ and is not
    modelled.
  \<^item> A \<^verbatim>\<open>String\<close> is a \<^typ>\<open>string\<close>, one \<^typ>\<open>char\<close> per \<^verbatim>\<open>juce_wchar\<close>; it holds no
    zero character (it is zero terminated), so the end of the list stands for the
    terminator that \<^verbatim>\<open>getAndAdvance\<close> returns.
  \<^item> \<^verbatim>\<open>Font\<close> is a type parameter \<open>'f\<close> with value equality; its metrics are the fields
    of the record \<open>fontMetrics\<close>, passed explicitly.
  \<^item> \<^verbatim>\<open>OwnedArray\<close> and \<^verbatim>\<open>Array\<close> are lists; ownership is not modelled.
\<close>

subsection \<open>Library value types used by the file\<close>

text \<open>
  Modelled from the spec: \<^verbatim>\<open>Range<T>\<close>, \<^verbatim>\<open>Point<float>\<close> and \<^verbatim>\<open>Rectangle<int>\<close> are
  declared outside \<^verbatim>\<open>src/\<close>. A range is a pair of bounds \<open>[start, end)\<close>; its constructor
  keeps \<open>end\<close> at or above \<open>start\<close>, the default range is \<open>[0, 0)\<close>, the union takes the
  smaller start and the larger end, and adding an amount shifts both bounds.
\<close>

record 'a jrange =
  rstart :: 'a
  rend :: 'a

definition Range_of :: "'a::linorder \<Rightarrow> 'a \<Rightarrow> 'a jrange" where
  "Range_of a b = \<lparr>rstart = a, rend = max a b\<rparr>"

definition emptyRange :: "'a::zero jrange" where
  "emptyRange = \<lparr>rstart = 0, rend = 0\<rparr>"

definition getLength :: "'a::minus jrange \<Rightarrow> 'a" where
  "getLength r = rend r - rstart r"

definition getUnionWith :: "'a::linorder jrange \<Rightarrow> 'a jrange \<Rightarrow> 'a jrange" where
  "getUnionWith r other = Range_of (min (rstart r) (rstart other)) (max (rend r) (rend other))"

definition rangePlus :: "real jrange \<Rightarrow> real \<Rightarrow> real jrange" where
  "rangePlus r amount = Range_of (rstart r + amount) (rend r + amount)"

record point =
  pt_x :: real
  pt_y :: real

record rectangle =
  rect_x :: int
  rect_y :: int
  rect_w :: int
  rect_h :: int

definition getRight :: "rectangle \<Rightarrow> int" where
  "getRight r = rect_x r + rect_w r"

definition setPosition :: "rectangle \<Rightarrow> int \<Rightarrow> int \<Rightarrow> rectangle" where
  "setPosition r newX newY = r\<lparr>rect_x := newX, rect_y := newY\<rparr>"

type_synonym colour = "32 word"

subsection \<open>Glyph, Run, Line and the layout\<close>

record glyph =
  glyphCode :: int
  anchor :: point
  width :: real

record 'f run =
  run_font :: 'f
  run_colour :: colour
  glyphs :: "glyph list"
  run_stringRange :: "int jrange"

record 'f line =
  runs :: "'f run list"
  line_stringRange :: "int jrange"
  lineOrigin :: point
  ascent :: real
  descent :: real
  leading :: real

datatype readingDirection = natural | leftToRight | rightToLeft

record 'f textLayout =
  lines :: "'f line list"
  layoutWidth :: real
  justification :: int

text \<open>\<^verbatim>\<open>Run()\<close> and \<^verbatim>\<open>Line()\<close>: the default constructors (lines 47--50 and 69--72).\<close>

definition newRun :: "'f \<Rightarrow> 'f run" where
  "newRun dflt = \<lparr>run_font = dflt, run_colour = 0xff000000, glyphs = [],
     run_stringRange = emptyRange\<rparr>"

definition newLine :: "'f line" where
  "newLine = \<lparr>runs = [], line_stringRange = emptyRange,
     lineOrigin = \<lparr>pt_x = 0, pt_y = 0\<rparr>, ascent = 0, descent = 0, leading = 0\<rparr>"

subsection \<open>Line::getLineBoundsX (lines 94--130)\<close>

text \<open>
  The inner loop runs \<open>j\<close> from \<open>size - 1\<close> down to \<open>1\<close> (\<^verbatim>\<open>--j > 0\<close>): glyph \<open>0\<close> only
  seeds \<open>minX\<close> and \<open>maxX\<close> with its anchor. The state of the loop is \<open>(minX, maxX)\<close>.
\<close>

definition glyphStep :: "real \<times> real \<Rightarrow> glyph \<Rightarrow> real \<times> real" where
  "glyphStep s g = (let x = pt_x (anchor g) in (min (fst s) x, max (snd s) (x + width g)))"

definition runBounds :: "'f run \<Rightarrow> real \<times> real" where
  "runBounds r = (let minX = pt_x (anchor (hd (glyphs r)))
                  in foldl glyphStep (minX, minX) (rev (tl (glyphs r))))"

text \<open>The outer loop visits the runs from the last to the first; its state is \<open>(range, isFirst)\<close>.\<close>

definition runStep :: "real jrange \<times> bool \<Rightarrow> 'f run \<Rightarrow> real jrange \<times> bool" where
  "runStep s r =
     (if glyphs r \<noteq> [] then
        (let b = runBounds r in
         if snd s then (Range_of (fst b) (snd b), False)
         else (getUnionWith (fst s) (Range_of (fst b) (snd b)), False))
      else s)"

definition getLineBoundsX :: "'f line \<Rightarrow> real jrange" where
  "getLineBoundsX l =
     rangePlus (fst (foldl runStep (emptyRange, True) (rev (runs l)))) (pt_x (lineOrigin l))"

text \<open>What the interface documents: the union of the extents \<open>[x, x + width]\<close> of the glyphs.\<close>

definition glyphExtent :: "'f line \<Rightarrow> glyph \<Rightarrow> real jrange" where
  "glyphExtent l g = Range_of (pt_x (anchor g) + pt_x (lineOrigin l))
                              (pt_x (anchor g) + width g + pt_x (lineOrigin l))"

definition rangeContains :: "real jrange \<Rightarrow> real jrange \<Rightarrow> bool" where
  "rangeContains outer inner = (rstart outer \<le> rstart inner \<and> rend inner \<le> rend outer)"

definition oneGlyphLine :: "nat line" where
  "oneGlyphLine = newLine\<lparr>runs :=
     [(newRun 0)\<lparr>glyphs := [\<lparr>glyphCode = 65, anchor = \<lparr>pt_x = 0, pt_y = 0\<rparr>, width = 10\<rparr>]\<rparr>]\<rparr>"

subsection \<open>The attributed text and the font provider\<close>

text \<open>
  Modelled from the spec: \<^verbatim>\<open>AttributedString\<close>, its \<^verbatim>\<open>Attribute\<close> and \<^verbatim>\<open>Font\<close> are declared
  outside \<^verbatim>\<open>src/\<close>. An attribute has a range and an optional font and colour (\<open>None\<close> is the
  null pointer that \<^verbatim>\<open>getFont()\<close> or \<^verbatim>\<open>getColour()\<close> returns). The font provider gives the
  width of a string, the height, ascent and descent of a font, and the glyph codes of a
  string with their x offsets (one more offset than glyphs). \<open>createNativeLayout\<close> is the
  platform's layout: \<open>None\<close> when it declines, else the layout it produced.
\<close>

record 'f attribute =
  attr_range :: "int jrange"
  getFont :: "'f option"
  getColour :: "colour option"

record 'f attributedString =
  getText :: string
  attributes :: "'f attribute list"
  getJustification :: int
  getReadingDirection :: readingDirection

record 'f fontMetrics =
  defaultFont :: 'f
  getStringWidth :: "'f \<Rightarrow> string \<Rightarrow> int"
  getFontHeight :: "'f \<Rightarrow> real"
  getAscent :: "'f \<Rightarrow> real"
  getDescent :: "'f \<Rightarrow> real"
  getGlyphPositions :: "'f \<Rightarrow> string \<Rightarrow> int list \<times> real list"
  createNativeLayout :: "'f attributedString \<Rightarrow> 'f textLayout \<Rightarrow> 'f textLayout option"

text \<open>
  Modelled from the spec: the flags of \<^verbatim>\<open>Justification\<close> (a bitmask) and the character and
  string helpers (\<^verbatim>\<open>CharacterFunctions::isWhitespace\<close>, \<^verbatim>\<open>String::substring\<close>,
  \<^verbatim>\<open>String::trimEnd\<close>, \<^verbatim>\<open>roundToInt\<close>) are declared outside \<^verbatim>\<open>src/\<close>. The two flags have
  the values of the library (\<open>right = 2\<close>, \<open>horizontallyCentred = 4\<close>); the general
  properties below do not depend on the values. \<open>isWhitespaceChar\<close> is the whitespace
  of the C locale, \<open>roundToInt\<close> rounds to the nearest integer (ties to even), and
  \<open>truncToInt\<close> is the cast \<^verbatim>\<open>(int)\<close> of a \<^verbatim>\<open>float\<close>, towards zero.
\<close>

definition Justification_right :: int where
  "Justification_right = 2"

definition Justification_horizontallyCentred :: int where
  "Justification_horizontallyCentred = 4"

definition hasFlag :: "int \<Rightarrow> int \<Rightarrow> bool" where
  "hasFlag flags f = (flags AND f \<noteq> 0)"

definition isWhitespaceChar :: "char \<Rightarrow> bool" where
  "isWhitespaceChar c = (c = CHR '' '' \<or> c = CHR 0x09 \<or> c = CHR 0x0A \<or> c = CHR 0x0B
                          \<or> c = CHR 0x0C \<or> c = CHR 0x0D)"

definition substring :: "string \<Rightarrow> int \<Rightarrow> int \<Rightarrow> string" where
  "substring s a b = (let a' = max a 0 in
                      if b \<le> a' then [] else take (nat (b - a')) (drop (nat a') s))"

definition trimEnd :: "string \<Rightarrow> string" where
  "trimEnd s = rev (dropWhile isWhitespaceChar (rev s))"

definition roundToInt :: "real \<Rightarrow> int" where
  "roundToInt r = (let f = \<lfloor>r\<rfloor>; d = r - of_int f in
                   if d < 1 / 2 then f else if 1 / 2 < d then f + 1
                   else if even f then f else f + 1)"

definition truncToInt :: "real \<Rightarrow> int" where
  "truncToInt r = (if 0 \<le> r then \<lfloor>r\<rfloor> else \<lceil>r\<rceil>)"

subsection \<open>TextLayoutHelpers: FontAndColour, RunAttribute, Token (lines 241--282)\<close>

text \<open>\<open>fc_font = None\<close> is the null font pointer of \<^verbatim>\<open>FontAndColour (nullptr)\<close>.\<close>

record 'f fontAndColour =
  fc_font :: "'f option"
  fc_colour :: colour

text \<open>
  \<^verbatim>\<open>operator!=\<close>: the fonts differ as pointers and as values, or the colours differ. Two
  equal pointers point to equal values, so on values the test is inequality.
\<close>

definition fc_neq :: "'f fontAndColour \<Rightarrow> 'f fontAndColour \<Rightarrow> bool" where
  "fc_neq a b = (fc_font a \<noteq> fc_font b \<or> fc_colour a \<noteq> fc_colour b)"

record 'f runAttribute =
  ra_fontAndColour :: "'f fontAndColour"
  ra_range :: "int jrange"

text \<open>
  \<open>tok_line\<close> and \<open>lineHeight\<close> are not initialised by the constructor; \<open>layoutRuns\<close>
  assigns both before anything reads them, and the model starts them at \<open>0\<close>.
\<close>

record 'f token =
  tok_text :: string
  tok_font :: 'f
  tok_colour :: colour
  area :: rectangle
  tok_line :: int
  lineHeight :: int
  isWhitespace :: bool
  isNewLine :: bool

definition Token :: "'f fontMetrics \<Rightarrow> string \<Rightarrow> 'f \<Rightarrow> colour \<Rightarrow> bool \<Rightarrow> 'f token" where
  "Token M t f c ws =
     \<lparr>tok_text = t, tok_font = f, tok_colour = c,
      area = \<lparr>rect_x = 0, rect_y = 0, rect_w = getStringWidth M f t,
              rect_h = roundToInt (getFontHeight M f)\<rparr>,
      tok_line = 0, lineHeight = 0, isWhitespace = ws,
      isNewLine = (CHR 0x0A \<in> set t \<or> CHR 0x0D \<in> set t)\<rparr>"

subsection \<open>TokenList::appendText (lines 400--445)\<close>

definition getCharacterType :: "char \<Rightarrow> int" where
  "getCharacterType c = (if c = CHR 0x0D \<or> c = CHR 0x0A then 0
                         else if isWhitespaceChar c then 2 else 1)"

definition flushToken :: "'f fontMetrics \<Rightarrow> 'f \<Rightarrow> colour \<Rightarrow> string \<Rightarrow> bool \<Rightarrow> 'f token list
    \<Rightarrow> 'f token list" where
  "flushToken M f col currentString ws tokens =
     (if currentString \<noteq> [] then tokens @ [Token M currentString f col ws] else tokens)"

text \<open>
  The loop of \<open>appendText\<close>: the first argument after the colour is what the character
  pointer \<open>t\<close> still has to read, then \<open>currentString\<close>, \<open>lastCharType\<close> and the tokens.
\<close>

fun appendLoop :: "'f fontMetrics \<Rightarrow> 'f \<Rightarrow> colour \<Rightarrow> string \<Rightarrow> string \<Rightarrow> int \<Rightarrow> 'f token list
    \<Rightarrow> 'f token list" where
  "appendLoop M f col [] currentString lastCharType tokens =
     flushToken M f col currentString (lastCharType = 2) tokens"
| "appendLoop M f col [c] currentString lastCharType tokens =
     (let charType = getCharacterType c in
      if charType = 0 \<or> charType \<noteq> lastCharType then
        appendLoop M f col [] [c] charType
          (flushToken M f col currentString (lastCharType = 2 \<or> lastCharType = 0) tokens)
      else appendLoop M f col [] (currentString @ [c]) charType tokens)"
| "appendLoop M f col (c # c2 # t) currentString lastCharType tokens =
     (let charType = getCharacterType c in
      if charType = 0 \<or> charType \<noteq> lastCharType then
        (let tokens' = flushToken M f col currentString
                         (lastCharType = 2 \<or> lastCharType = 0) tokens in
         if c = CHR 0x0D \<and> c2 = CHR 0x0A then appendLoop M f col t [c, c2] charType tokens'
         else appendLoop M f col (c2 # t) [c] charType tokens')
      else appendLoop M f col (c2 # t) (currentString @ [c]) charType tokens)"

definition appendText :: "'f fontMetrics \<Rightarrow> 'f attributedString \<Rightarrow> int jrange \<Rightarrow> 'f \<Rightarrow> colour
    \<Rightarrow> 'f token list \<Rightarrow> 'f token list" where
  "appendText M atext stringRange f col tokens =
     appendLoop M f col (substring (getText atext) (rstart stringRange) (rend stringRange))
       [] 0 tokens"

subsection \<open>TokenList::addTextRuns (lines 507--552)\<close>

text \<open>The inner loop over the attributes, for the character at offset \<open>i\<close>.\<close>

definition applyAttribute :: "int \<Rightarrow> 'f fontAndColour \<Rightarrow> 'f attribute \<Rightarrow> 'f fontAndColour" where
  "applyAttribute i fc attr =
     (let inRange = (rstart (attr_range attr) \<le> i \<and> i < rend (attr_range attr));
          fc1 = (case getFont attr of
                   Some fnt \<Rightarrow> if inRange then fc\<lparr>fc_font := Some fnt\<rparr> else fc
                 | None \<Rightarrow> fc)
      in case getColour attr of
           Some c \<Rightarrow> if inRange then fc1\<lparr>fc_colour := c\<rparr> else fc1
         | None \<Rightarrow> fc1)"

definition resolveStyle :: "'f fontMetrics \<Rightarrow> 'f attributedString \<Rightarrow> int \<Rightarrow> 'f fontAndColour" where
  "resolveStyle M atext i =
     foldl (applyAttribute i) \<lparr>fc_font = Some (defaultFont M), fc_colour = 0xff000000\<rparr>
       (attributes atext)"

text \<open>
  The loop over the characters: \<open>stringLength\<close>, then the state \<open>i\<close>, \<open>rangeStart\<close>,
  \<open>lastFontAndColour\<close> and \<open>runAttributes\<close>.
\<close>

function styleLoop :: "'f fontMetrics \<Rightarrow> 'f attributedString \<Rightarrow> int \<Rightarrow> int \<Rightarrow> int
    \<Rightarrow> 'f fontAndColour \<Rightarrow> 'f runAttribute list \<Rightarrow> 'f runAttribute list" where
  "styleLoop M atext stringLength i rangeStart lastFontAndColour runAttributes =
     (if i < stringLength then
        (let newFontAndColour = resolveStyle M atext i in
         if 0 < i \<and> (fc_neq newFontAndColour lastFontAndColour \<or> i = stringLength - 1) then
           styleLoop M atext stringLength (i + 1) i newFontAndColour
             (runAttributes @
               [\<lparr>ra_fontAndColour = lastFontAndColour,
                 ra_range = Range_of rangeStart (if i < stringLength - 1 then i else i + 1)\<rparr>])
         else styleLoop M atext stringLength (i + 1) rangeStart newFontAndColour runAttributes)
      else runAttributes)"
  by pat_completeness auto
termination
  by (relation "measure (\<lambda>(M, atext, n, i, rs, l, ras). nat (n - i))") auto

declare styleLoop.simps [simp del]

definition getRunAttributes :: "'f fontMetrics \<Rightarrow> 'f attributedString \<Rightarrow> 'f runAttribute list" where
  "getRunAttributes M atext =
     styleLoop M atext (int (length (getText atext))) 0 0
       \<lparr>fc_font = None, fc_colour = 0xff000000\<rparr> []"

text \<open>
  The second loop appends the tokens of each range. The font of a range is never null
  there: a range carries a style that \<open>resolveStyle\<close> returned.
\<close>

definition appendRun :: "'f fontMetrics \<Rightarrow> 'f attributedString \<Rightarrow> 'f token list \<Rightarrow> 'f runAttribute
    \<Rightarrow> 'f token list" where
  "appendRun M atext tokens r =
     (case fc_font (ra_fontAndColour r) of
        Some f \<Rightarrow> appendText M atext (ra_range r) f (fc_colour (ra_fontAndColour r)) tokens
      | None \<Rightarrow> tokens)"

definition addTextRuns :: "'f fontMetrics \<Rightarrow> 'f attributedString \<Rightarrow> 'f token list" where
  "addTextRuns M atext = foldl (appendRun M atext) [] (getRunAttributes M atext)"

subsection \<open>TokenList::layoutRuns (lines 447--490)\<close>

text \<open>
  \<open>setLastLineHeight\<close>: \<^verbatim>\<open>while (--i >= 0)\<close> walks down from \<open>i - 1\<close> while the tokens
  are on the line \<open>totalLines\<close>.
\<close>

fun setLastLineHeight :: "int \<Rightarrow> nat \<Rightarrow> int \<Rightarrow> 'f token list \<Rightarrow> 'f token list" where
  "setLastLineHeight totalLines 0 height tokens = tokens"
| "setLastLineHeight totalLines (Suc i) height tokens =
     (if tok_line (tokens ! i) = totalLines then
        setLastLineHeight totalLines i height (tokens[i := (tokens ! i)\<lparr>lineHeight := height\<rparr>])
      else tokens)"

lemma length_setLastLineHeight [simp]:
  "length (setLastLineHeight totalLines i height tokens) = length tokens"
  by (induction i arbitrary: tokens) auto

text \<open>
  \<open>placeToken\<close> is \<^verbatim>\<open>t->area.setPosition (x, y); t->line = totalLines\<close>.
  The loop of \<open>layoutRuns\<close>, with its state \<open>i\<close>, \<open>x\<close>, \<open>y\<close>, \<open>h\<close>, \<open>totalLines\<close> and the
  tokens; it returns the tokens with \<open>i\<close>, \<open>h\<close> and \<open>totalLines\<close> as the loop leaves them.
  \<^verbatim>\<open>tokens [i + 1]\<close> is null exactly when \<open>i + 1\<close> is not an index.
\<close>

definition placeToken :: "'f token \<Rightarrow> int \<Rightarrow> int \<Rightarrow> int \<Rightarrow> 'f token" where
  "placeToken t x y totalLines = t\<lparr>area := setPosition (area t) x y, tok_line := totalLines\<rparr>"

function layoutLoop :: "int \<Rightarrow> nat \<Rightarrow> int \<Rightarrow> int \<Rightarrow> int \<Rightarrow> int \<Rightarrow> 'f token list
    \<Rightarrow> 'f token list \<times> nat \<times> int \<times> int" where
  "layoutLoop maxWidth i x y h totalLines tokens =
     (if i < length tokens then
        (let t = placeToken (tokens ! i) x y totalLines;
             tokens1 = tokens[i := t];
             x1 = x + rect_w (area t);
             h1 = max h (rect_h (area t))
         in if Suc i < length tokens then
              (let nextTok = tokens1 ! Suc i in
               if isNewLine t \<or> (\<not> isWhitespace nextTok \<and> maxWidth < x1 + rect_w (area nextTok))
               then layoutLoop maxWidth (Suc i) 0 (y + h1) 0 (totalLines + 1)
                      (setLastLineHeight totalLines (Suc i) h1 tokens1)
               else layoutLoop maxWidth (Suc i) x1 y h1 totalLines tokens1)
            else (tokens1, i, h1, totalLines))
      else (tokens, i, h, totalLines))"
  by pat_completeness auto
termination
  by (relation "measure (\<lambda>(mw, i, x, y, h, tl, toks). length toks - i)") auto

declare layoutLoop.simps [simp del]

text \<open>
  \<open>layoutRuns\<close> on a fresh \<open>TokenList\<close> (\<open>totalLines = 0\<close>): the tokens with their positions
  and lines, and the final \<open>totalLines\<close>.
\<close>

definition layoutRuns :: "int \<Rightarrow> 'f token list \<Rightarrow> 'f token list \<times> int" where
  "layoutRuns maxWidth tokens =
     (case layoutLoop maxWidth 0 0 0 0 0 tokens of
        (tokens', i, h, totalLines) \<Rightarrow>
          (setLastLineHeight totalLines (min (i + 1) (length tokens')) h tokens', totalLines + 1))"

subsection \<open>TokenList::getLineWidth (lines 492--505)\<close>

definition lineWidthStep :: "int \<Rightarrow> int \<Rightarrow> 'f token \<Rightarrow> int" where
  "lineWidthStep lineNumber maxW t =
     (if tok_line t = lineNumber \<and> \<not> isWhitespace t then max maxW (getRight (area t)) else maxW)"

definition getLineWidth :: "'f token list \<Rightarrow> int \<Rightarrow> int" where
  "getLineWidth tokens lineNumber = foldl (lineWidthStep lineNumber) 0 (rev tokens)"

subsection \<open>TokenList::createLayout (lines 289--398)\<close>

definition addRun :: "'f fontMetrics \<Rightarrow> 'f line \<Rightarrow> 'f run \<Rightarrow> 'f token \<Rightarrow> int \<Rightarrow> int \<Rightarrow> 'f line" where
  "addRun M glyphLine glyphRun t start stop =
     glyphLine\<lparr>ascent := max (ascent glyphLine) (getAscent M (tok_font t)),
               descent := max (descent glyphLine) (getDescent M (tok_font t)),
               runs := runs glyphLine @
                 [glyphRun\<lparr>run_stringRange := Range_of start stop, run_font := tok_font t,
                           run_colour := tok_colour t\<rparr>]\<rparr>"

text \<open>
  The glyphs of one token: glyph \<open>j\<close> is anchored at \<open>tokenPos.x + xOffsets[j]\<close> and is
  \<open>xOffsets[j + 1] - xOffsets[j]\<close> wide. The offsets are read unchecked: the provider
  returns one more offset than glyphs.
\<close>

fun makeGlyphs :: "real \<Rightarrow> int list \<Rightarrow> real list \<Rightarrow> glyph list" where
  "makeGlyphs tokenX [] xOffsets = []"
| "makeGlyphs tokenX (g # gs) xOffsets =
     \<lparr>glyphCode = g, anchor = \<lparr>pt_x = tokenX + hd xOffsets, pt_y = 0\<rparr>,
      width = hd (tl xOffsets) - hd xOffsets\<rparr> # makeGlyphs tokenX gs (tl xOffsets)"

text \<open>
  The state of the main loop. \<open>currentLine\<close> and \<open>currentRun\<close> are the scoped pointers
  (\<open>None\<close> after \<open>release\<close>); \<open>layoutLines\<close> are the lines added to the layout.
\<close>

record 'f builder =
  charPosition :: int
  lineStartPosition :: int
  runStartPosition :: int
  currentLine :: "'f line option"
  currentRun :: "'f run option"
  needToSetLineOrigin :: bool
  layoutLines :: "'f line list"

definition orNewRun :: "'f fontMetrics \<Rightarrow> 'f run option \<Rightarrow> 'f run" where
  "orNewRun M r = (case r of None \<Rightarrow> newRun (defaultFont M) | Some r' \<Rightarrow> r')"

definition orNewLine :: "'f line option \<Rightarrow> 'f line" where
  "orNewLine l = (case l of None \<Rightarrow> newLine | Some l' \<Rightarrow> l')"

text \<open>One iteration: the token \<open>t\<close> and \<^verbatim>\<open>tokens [i + 1]\<close> (\<open>None\<close> after the last token).\<close>

definition buildStep :: "'f fontMetrics \<Rightarrow> 'f token \<Rightarrow> 'f token option \<Rightarrow> 'f builder \<Rightarrow> 'f builder" where
  "buildStep M t nextToken b =
     (let tokenX = real_of_int (rect_x (area t));
          tokenY = real_of_int (rect_y (area t));
          newGlyphs = fst (getGlyphPositions M (tok_font t) (trimEnd (tok_text t)));
          xOffsets = snd (getGlyphPositions M (tok_font t) (trimEnd (tok_text t)));
          run0 = orNewRun M (currentRun b);
          line0 = orNewLine (currentLine b);
          line1 = (if newGlyphs \<noteq> [] \<and> needToSetLineOrigin b
                   then line0\<lparr>lineOrigin :=
                          \<lparr>pt_x = tokenX, pt_y = tokenY + getAscent M (tok_font t)\<rparr>\<rparr>
                   else line0);
          needs1 = (needToSetLineOrigin b \<and> newGlyphs = []);
          run1 = run0\<lparr>glyphs := glyphs run0 @ makeGlyphs tokenX newGlyphs xOffsets\<rparr>;
          cp1 = charPosition b + int (length newGlyphs);
          cp2 = (if isWhitespace t \<or> isNewLine t then cp1 + 1 else cp1)
      in case nextToken of
           None \<Rightarrow>
             b\<lparr>charPosition := cp2, currentLine := None, currentRun := None,
               needToSetLineOrigin := needs1,
               layoutLines := layoutLines b @
                 [(addRun M line1 run1 t (runStartPosition b) cp2)
                    \<lparr>line_stringRange := Range_of (lineStartPosition b) cp2\<rparr>]\<rparr>
         | Some n \<Rightarrow>
             (let styleChanged = (tok_font t \<noteq> tok_font n \<or> tok_colour t \<noteq> tok_colour n);
                  line2 = (if styleChanged then addRun M line1 run1 t (runStartPosition b) cp2
                           else line1);
                  run2 = (if styleChanged then None else Some run1);
                  rsp2 = (if styleChanged then cp2 else runStartPosition b)
              in if tok_line t \<noteq> tok_line n then
                   b\<lparr>charPosition := cp2, lineStartPosition := cp2, runStartPosition := cp2,
                     currentLine := None, currentRun := None, needToSetLineOrigin := True,
                     layoutLines := layoutLines b @
                       [(addRun M line2 (orNewRun M run2) t rsp2 cp2)
                          \<lparr>line_stringRange := Range_of (lineStartPosition b) cp2\<rparr>]\<rparr>
                 else
                   b\<lparr>charPosition := cp2, runStartPosition := rsp2, currentLine := Some line2,
                     currentRun := run2, needToSetLineOrigin := needs1\<rparr>))"

fun buildLoop :: "'f fontMetrics \<Rightarrow> 'f token list \<Rightarrow> 'f builder \<Rightarrow> 'f builder" where
  "buildLoop M [] b = b"
| "buildLoop M [t] b = buildStep M t None b"
| "buildLoop M (t # n # ts) b = buildLoop M (n # ts) (buildStep M t (Some n) b)"

definition initBuilder :: "'f line list \<Rightarrow> 'f builder" where
  "initBuilder ls = \<lparr>charPosition = 0, lineStartPosition = 0, runStartPosition = 0,
     currentLine = None, currentRun = None, needToSetLineOrigin = True, layoutLines = ls\<rparr>"

text \<open>The tokens as \<open>addTextRuns\<close> and \<open>layoutRuns\<close> leave them, for a layout of this width.\<close>

definition layoutTokens :: "'f fontMetrics \<Rightarrow> 'f attributedString \<Rightarrow> real \<Rightarrow> 'f token list" where
  "layoutTokens M atext w = fst (layoutRuns (truncToInt w) (addTextRuns M atext))"

text \<open>The lines that the main loop (lines 307--369) adds to the layout.\<close>

definition buildLines :: "'f fontMetrics \<Rightarrow> 'f attributedString \<Rightarrow> 'f textLayout \<Rightarrow> 'f textLayout" where
  "buildLines M atext layout =
     layout\<lparr>lines := layoutLines (buildLoop M (layoutTokens M atext (layoutWidth layout))
                                   (initBuilder (lines layout)))\<rparr>"

text \<open>The justification pass (lines 371--385), line \<open>i\<close> onwards.\<close>

fun shiftLines :: "'f token list \<Rightarrow> int \<Rightarrow> bool \<Rightarrow> int \<Rightarrow> 'f line list \<Rightarrow> 'f line list" where
  "shiftLines tokens totalW isCentred i [] = []"
| "shiftLines tokens totalW isCentred i (l # ls) =
     (let dx = real_of_int (totalW - getLineWidth tokens i);
          dx' = (if isCentred then dx / 2 else dx)
      in l\<lparr>lineOrigin := (lineOrigin l)\<lparr>pt_x := pt_x (lineOrigin l) + dx'\<rparr>\<rparr>
         # shiftLines tokens totalW isCentred (i + 1) ls)"

definition justifyLines :: "'f fontMetrics \<Rightarrow> 'f attributedString \<Rightarrow> 'f token list \<Rightarrow> 'f textLayout
    \<Rightarrow> 'f textLayout" where
  "justifyLines M atext tokens layout =
     (if hasFlag (getJustification atext) (Justification_right OR Justification_horizontallyCentred)
      then layout\<lparr>lines := shiftLines tokens (truncToInt (layoutWidth layout))
                              (hasFlag (getJustification atext) Justification_horizontallyCentred)
                              0 (lines layout)\<rparr>
      else layout)"

definition TokenList_createLayout :: "'f fontMetrics \<Rightarrow> 'f attributedString \<Rightarrow> 'f textLayout
    \<Rightarrow> 'f textLayout" where
  "TokenList_createLayout M atext layout =
     justifyLines M atext (layoutTokens M atext (layoutWidth layout)) (buildLines M atext layout)"

subsection \<open>TextLayout: getHeight, getLine, createLayout, recalculateWidth\<close>

definition getHeight :: "'f textLayout \<Rightarrow> real" where
  "getHeight layout =
     (if lines layout = [] then 0
      else pt_y (lineOrigin (last (lines layout))) + descent (last (lines layout)))"

text \<open>
  Modelled from the spec: \<^verbatim>\<open>OwnedArray::operator[]\<close> is declared outside \<^verbatim>\<open>src/\<close>; it is
  bounds-checked and returns a null pointer (\<open>None\<close>) for an index out of range.
  \<open>getLine\<close> (lines 183--186) dereferences what it returns, with no test of its own.
\<close>

definition arrayGet :: "'a list \<Rightarrow> int \<Rightarrow> 'a option" where
  "arrayGet xs index = (if 0 \<le> index \<and> index < int (length xs) then Some (xs ! nat index) else None)"

datatype 'a access = Reference 'a | NullPointerDereference

definition getLine :: "'f textLayout \<Rightarrow> int \<Rightarrow> 'f line access" where
  "getLine layout index =
     (case arrayGet (lines layout) index of
        Some l \<Rightarrow> Reference l
      | None \<Rightarrow> NullPointerDereference)"

definition shiftOrigin :: "real \<Rightarrow> 'f line \<Rightarrow> 'f line" where
  "shiftOrigin d l = l\<lparr>lineOrigin := (lineOrigin l)\<lparr>pt_x := pt_x (lineOrigin l) - d\<rparr>\<rparr>"

definition unionStep :: "real jrange \<Rightarrow> 'f line \<Rightarrow> real jrange" where
  "unionStep r l = getUnionWith r (getLineBoundsX l)"

definition linesBounds :: "'f line list \<Rightarrow> real jrange" where
  "linesBounds ls = foldl unionStep (getLineBoundsX (hd ls)) (rev (tl ls))"

definition recalculateWidth :: "'f attributedString \<Rightarrow> 'f textLayout \<Rightarrow> 'f textLayout" where
  "recalculateWidth atext layout =
     (if lines layout \<noteq> [] \<and> getReadingDirection atext \<noteq> rightToLeft then
        layout\<lparr>lines := map (shiftOrigin (rstart (linesBounds (lines layout)))) (lines layout),
               layoutWidth := getLength (linesBounds (lines layout))\<rparr>
      else layout)"

definition createStandardLayout :: "'f fontMetrics \<Rightarrow> 'f attributedString \<Rightarrow> 'f textLayout
    \<Rightarrow> 'f textLayout" where
  "createStandardLayout M atext layout = TokenList_createLayout M atext layout"

definition clearedLayout :: "'f attributedString \<Rightarrow> real \<Rightarrow> 'f textLayout \<Rightarrow> 'f textLayout" where
  "clearedLayout atext maxWidth layout =
     layout\<lparr>lines := [], layoutWidth := maxWidth, justification := getJustification atext\<rparr>"

definition createLayout :: "'f fontMetrics \<Rightarrow> 'f attributedString \<Rightarrow> real \<Rightarrow> 'f textLayout
    \<Rightarrow> 'f textLayout" where
  "createLayout M atext maxWidth layout =
     recalculateWidth atext
       (case createNativeLayout M atext (clearedLayout atext maxWidth layout) of
          Some native \<Rightarrow> native
        | None \<Rightarrow> createStandardLayout M atext (clearedLayout atext maxWidth layout))"

subsection \<open>TextLayout::createLayoutWithBalancedLineLengths (lines 562--594)\<close>

definition lineProportion :: "real \<Rightarrow> real \<Rightarrow> real" where
  "lineProportion line1 line2 =
     (let shortestLine = min line1 line2
      in if 0 < shortestLine then max line1 line2 / shortestLine else 1)"

text \<open>Lines 583--587: the pair \<open>(bestLineProportion, bestWidth)\<close> after a candidate.\<close>

definition trackBest :: "real \<Rightarrow> real \<Rightarrow> real \<times> real \<Rightarrow> real \<times> real" where
  "trackBest prop maxWidth best = (if fst best < prop then (prop, maxWidth) else best)"

lemma balance_measure:
  "\<lceil>((maxWidth::real) - 10 - minimumWidth) / 10\<rceil> < \<lceil>(maxWidth - minimumWidth) / 10\<rceil>"
proof -
  have e: "(maxWidth - 10 - minimumWidth) / 10 = (maxWidth - minimumWidth) / 10 - 1"
    by (simp add: field_simps)
  have "\<lceil>(maxWidth - 10 - minimumWidth) / 10\<rceil> = \<lceil>(maxWidth - minimumWidth) / 10\<rceil> - 1"
    by (simp only: e ceiling_diff_one)
  then show ?thesis by simp
qed

text \<open>
  The loop with what follows it: the state is \<open>maxWidth\<close>, \<open>(bestLineProportion,
  bestWidth)\<close> and the layout object; \<open>minimumWidth\<close> is constant.
\<close>

function balanceLoop :: "'f fontMetrics \<Rightarrow> 'f attributedString \<Rightarrow> real \<Rightarrow> real \<Rightarrow> real \<times> real
    \<Rightarrow> 'f textLayout \<Rightarrow> 'f textLayout" where
  "balanceLoop M atext minimumWidth maxWidth best layout =
     (if minimumWidth < maxWidth then
        (let layout1 = createLayout M atext maxWidth layout in
         if length (lines layout1) < 2 then layout1
         else
           (let line1 = getLength (getLineBoundsX (lines layout1 ! (length (lines layout1) - 1)));
                line2 = getLength (getLineBoundsX (lines layout1 ! (length (lines layout1) - 2)));
                prop = lineProportion line1 line2
            in if 9 / 10 < prop then layout1
               else balanceLoop M atext minimumWidth (maxWidth - 10)
                      (trackBest prop maxWidth best) layout1))
      else if snd best \<noteq> maxWidth then createLayout M atext (snd best) layout
      else layout)"
  by pat_completeness auto
termination
  by (relation "measure (\<lambda>(M, atext, mn, mw, best, layout). nat \<lceil>(mw - mn) / 10\<rceil>)")
     (auto simp: balance_measure)

declare balanceLoop.simps [simp del]

definition createLayoutWithBalancedLineLengths :: "'f fontMetrics \<Rightarrow> 'f attributedString \<Rightarrow> real
    \<Rightarrow> 'f textLayout \<Rightarrow> 'f textLayout" where
  "createLayoutWithBalancedLineLengths M atext maxWidth layout =
     balanceLoop M atext (maxWidth / 2) maxWidth (0, maxWidth) layout"

subsection \<open>A concrete font provider and texts, for evaluating the code\<close>

text \<open>
  A fixed-pitch font provider over fonts named by numbers: every character is \<open>10\<close> wide
  and has one glyph, whose code is the character's; the font height is \<open>12\<close>, the ascent
  \<open>9\<close>, the descent \<open>3\<close>. The platform has no native layout.
\<close>

definition fixedPitch :: "nat fontMetrics" where
  "fixedPitch =
     \<lparr>defaultFont = 0,
      getStringWidth = (\<lambda>f s. 10 * int (length s)),
      getFontHeight = (\<lambda>f. 12),
      getAscent = (\<lambda>f. 9),
      getDescent = (\<lambda>f. 3),
      getGlyphPositions = (\<lambda>f s. (map (\<lambda>c. int (of_char c)) s,
                                    map (\<lambda>i. 10 * real i) [0..<Suc (length s)])),
      createNativeLayout = (\<lambda>t l. None)\<rparr>"

definition plainText :: "string \<Rightarrow> int \<Rightarrow> nat attributedString" where
  "plainText s flags =
     \<lparr>getText = s, attributes = [], getJustification = flags, getReadingDirection = natural\<rparr>"

definition emptyLayout :: "nat textLayout" where
  "emptyLayout = \<lparr>lines = [], layoutWidth = 0, justification = 9\<rparr>"

subsection \<open>Notions used to state the properties\<close>

text \<open>
  What \<open>layoutRuns\<close> never changes in a token, and what it assigns: the position and the
  line.
\<close>

definition static :: "'f token \<Rightarrow> string \<times> 'f \<times> colour \<times> int \<times> int \<times> bool \<times> bool" where
  "static t = (tok_text t, tok_font t, tok_colour t, rect_w (area t), rect_h (area t),
               isWhitespace t, isNewLine t)"

definition placed :: "'f token \<Rightarrow> int \<times> int \<times> int" where
  "placed t = (rect_x (area t), rect_y (area t), tok_line t)"

text \<open>
  The condition of line 465 on a placed token \<open>t\<close> and the token after it: \<open>t\<close> is a
  line break, or the next token is not whitespace and does not fit after \<open>t\<close>
  (the cursor \<open>x\<close> is the right edge of \<open>t\<close>).
\<close>

definition breaksAfter :: "int \<Rightarrow> 'f token \<Rightarrow> 'f token \<Rightarrow> bool" where
  "breaksAfter maxWidth t nextTok =
     (isNewLine t \<or> (\<not> isWhitespace nextTok
        \<and> maxWidth < rect_x (area t) + rect_w (area t) + rect_w (area nextTok)))"

definition stepOK :: "int \<Rightarrow> 'f token \<Rightarrow> 'f token \<Rightarrow> bool" where
  "stepOK maxWidth t nextTok =
     (tok_line nextTok = tok_line t + (if breaksAfter maxWidth t nextTok then 1 else 0)
      \<and> rect_x (area nextTok) = (if breaksAfter maxWidth t nextTok then 0 else getRight (area t)))"

definition styled :: "'f \<Rightarrow> colour \<Rightarrow> 'f token \<Rightarrow> bool" where
  "styled f col t = (tok_font t = f \<and> tok_colour t = col \<and> tok_text t \<noteq> [])"

definition lastRun :: "'f textLayout \<Rightarrow> 'f run" where
  "lastRun layout = last (runs (last (lines layout)))"

definition shiftedBy :: "real \<Rightarrow> 'f line \<Rightarrow> 'f line" where
  "shiftedBy d l = l\<lparr>lineOrigin := (lineOrigin l)\<lparr>pt_x := pt_x (lineOrigin l) + d\<rparr>\<rparr>"

text \<open>
  Concrete inputs: the tokens of \<open>aaaa bbbbbbb\<close> (widths \<open>40\<close>, \<open>10\<close>, \<open>70\<close>); the single
  token of \<open>bbbbbbb\<close> (width \<open>70\<close>); a text of four words whose lines are unbalanced at
  width \<open>100\<close>; a centred text that is \<open>100\<close> wide; and the text \<open>ab\<close> whose last
  character alone has the font \<open>7\<close> and the colour \<open>0xffff0000\<close>.
\<close>

definition wrapTokens :: "nat token list" where
  "wrapTokens = addTextRuns fixedPitch (plainText ''aaaa bbbbbbb'' 1)"

definition loneToken :: "nat token list" where
  "loneToken = addTextRuns fixedPitch (plainText ''bbbbbbb'' 1)"



definition centredText :: "nat attributedString" where
  "centredText = plainText ''aaaaaaaaaa'' 4"

definition twoStyleText :: "nat attributedString" where
  "twoStyleText =
     \<lparr>getText = ''ab'',
      attributes = [\<lparr>attr_range = \<lparr>rstart = 1, rend = 2\<rparr>, getFont = Some 7,
                     getColour = Some 0xffff0000\<rparr>],
      getJustification = 1, getReadingDirection = natural\<rparr>"

section \<open>Properties\<close>

text \<open>
  C3 (as the code behaves): on a line whose only run holds the single glyph
  \<open>(code 65, anchor (0, 0), width 10)\<close> with line origin \<open>(0, 0)\<close>, \<open>getLineBoundsX\<close> returns
  \<open>[0, 0]\<close>, which does not contain the glyph's extent \<open>[0, 10]\<close>: the width of the first
  glyph of a run is never added. \<open>createLayout\<close> makes such lines: the second line of the
  text \<open>ab\<close>, line feed, \<open>c\<close> holds one glyph, \<open>10\<close> wide, and its bounds are \<open>[0, 0]\<close>.
\<close>

theorem getLineBoundsX_drops_first_glyph_width:
  "getLineBoundsX oneGlyphLine = \<lparr>rstart = 0, rend = 0\<rparr>
   \<and> glyphExtent oneGlyphLine (hd (glyphs (hd (runs oneGlyphLine)))) = \<lparr>rstart = 0, rend = 10\<rparr>
   \<and> \<not> rangeContains (getLineBoundsX oneGlyphLine)
         (glyphExtent oneGlyphLine (hd (glyphs (hd (runs oneGlyphLine)))))
   \<and> map (map (map width \<circ> glyphs) \<circ> runs)
         (lines (createLayout fixedPitch (plainText [CHR ''a'', CHR ''b'', CHR 0x0A, CHR ''c''] 1)
                   1000 emptyLayout)) = [[[10, 10]], [[10]]]
   \<and> map getLineBoundsX
         (lines (createLayout fixedPitch (plainText [CHR ''a'', CHR ''b'', CHR 0x0A, CHR ''c''] 1)
                   1000 emptyLayout))
       = [\<lparr>rstart = 0, rend = 20\<rparr>, \<lparr>rstart = 0, rend = 0\<rparr>]"
proof -
  have a: "getLineBoundsX oneGlyphLine = \<lparr>rstart = 0, rend = 0\<rparr>"
    by (simp add: getLineBoundsX_def oneGlyphLine_def newLine_def newRun_def runStep_def
        runBounds_def rangePlus_def Range_of_def emptyRange_def)
  have b: "glyphExtent oneGlyphLine (hd (glyphs (hd (runs oneGlyphLine))))
             = \<lparr>rstart = 0, rend = 10\<rparr>"
    by (simp add: oneGlyphLine_def newLine_def newRun_def Range_of_def glyphExtent_def)
  have c: "map (map (map width \<circ> glyphs) \<circ> runs)
         (lines (createLayout fixedPitch (plainText [CHR ''a'', CHR ''b'', CHR 0x0A, CHR ''c''] 1)
                   1000 emptyLayout)) = [[[10, 10]], [[10]]]"
    by code_simp
  have d: "map getLineBoundsX
         (lines (createLayout fixedPitch (plainText [CHR ''a'', CHR ''b'', CHR 0x0A, CHR ''c''] 1)
                   1000 emptyLayout))
       = [\<lparr>rstart = 0, rend = 20\<rparr>, \<lparr>rstart = 0, rend = 0\<rparr>]"
    by code_simp
  show ?thesis
    using a b c d by (simp add: rangeContains_def)
qed

subsection \<open>The balancer\<close>

lemma lineProportion_ge_1: "1 \<le> lineProportion line1 line2"
  by (auto simp: lineProportion_def Let_def min_def max_def)

lemma lineProportion_stops: "9 / 10 < lineProportion line1 line2"
  using lineProportion_ge_1 [of line1 line2] by simp

lemma balanceLoop_candidate:
  "minimumWidth < maxWidth \<Longrightarrow>
   balanceLoop M atext minimumWidth maxWidth best layout = createLayout M atext maxWidth layout"
  by (subst balanceLoop.simps) (simp only: lineProportion_stops Let_def if_True if_cancel)

lemma balanceLoop_exhausted:
  "\<not> minimumWidth < maxWidth \<Longrightarrow>
   balanceLoop M atext minimumWidth maxWidth best layout =
     (if snd best \<noteq> maxWidth then createLayout M atext (snd best) layout else layout)"
  by (subst balanceLoop.simps) (simp only: if_False)


text \<open>
  C9 (counterexample): for the text \<open>ab\<close> and \<open>maxWidth = 0\<close> on an empty layout object,
  \<open>createLayoutWithBalancedLineLengths\<close> leaves the layout without lines, while
  \<open>createLayout\<close> makes a line.
\<close>

theorem balanced_differs_at_width_zero:
  "createLayoutWithBalancedLineLengths fixedPitch (plainText ''ab'' 1) 0 emptyLayout
     \<noteq> createLayout fixedPitch (plainText ''ab'' 1) 0 emptyLayout"
proof -
  have a: "lines (createLayoutWithBalancedLineLengths fixedPitch (plainText ''ab'' 1) 0
             emptyLayout) = []"
    by code_simp
  have b: "length (lines (createLayout fixedPitch (plainText ''ab'' 1) 0 emptyLayout)) = 1"
    by code_simp
  show ?thesis
  proof
    assume "createLayoutWithBalancedLineLengths fixedPitch (plainText ''ab'' 1) 0 emptyLayout
             = createLayout fixedPitch (plainText ''ab'' 1) 0 emptyLayout"
    with a b show False by simp
  qed
qed

text \<open>
  C9 (amended): the proportion of two line lengths is never below \<open>1\<close>, so it always
  exceeds the threshold \<open>0.9\<close>; for every text and every \<open>maxWidth\<close> above \<open>0\<close>,
  \<open>createLayoutWithBalancedLineLengths\<close> returns after its first pass with exactly the
  layout of \<open>createLayout\<close> at \<open>maxWidth\<close>. For \<open>maxWidth\<close> at or below \<open>0\<close> the loop body
  never runs and the layout object is left as it was.
\<close>

theorem balanced_is_first_pass:
  "1 \<le> lineProportion line1 line2
   \<and> createLayoutWithBalancedLineLengths M atext maxWidth layout =
       (if 0 < maxWidth then createLayout M atext maxWidth layout else layout)"
proof (cases "0 < maxWidth")
  case True
  then have "maxWidth / 2 < maxWidth" by simp
  then show ?thesis
    unfolding createLayoutWithBalancedLineLengths_def using True
    by (simp only: balanceLoop_candidate if_True lineProportion_ge_1 simp_thms)
next
  case False
  then have "\<not> maxWidth / 2 < maxWidth" by simp
  then show ?thesis
    unfolding createLayoutWithBalancedLineLengths_def using False
    by (simp only: balanceLoop_exhausted snd_conv if_False lineProportion_ge_1 simp_thms)
qed

subsection \<open>The width of the layout and \<open>getLine\<close>\<close>





text \<open>
  C8 (counterexample): on a layout with no lines, \<open>getLine 0\<close> dereferences the null
  pointer that the array returned; nothing rejects the index.
\<close>

theorem getLine_out_of_range_dereferences_null:
  "getLine emptyLayout 0 = NullPointerDereference"
  by (simp add: getLine_def arrayGet_def emptyLayout_def)

text \<open>
  C8 (amended): the array lookup under \<open>getLine\<close> is bounds-checked: for an index inside
  \<open>[0, number of lines)\<close> \<open>getLine\<close> returns the line at that index; for an index outside
  it the lookup gives a null pointer, which \<open>getLine\<close> dereferences without a test
  (undefined behaviour, not a rejected access).
\<close>

theorem getLine_cases:
  "getLine layout index =
     (if 0 \<le> index \<and> index < int (length (lines layout))
      then Reference (lines layout ! nat index)
      else NullPointerDereference)"
  by (simp add: getLine_def arrayGet_def)

subsection \<open>Character offsets\<close>

text \<open>
  C1 (as the code behaves): the text \<open>a  b\<close> (two spaces) has \<open>4\<close> characters and its
  widest token is \<open>20\<close> wide; at \<open>maxWidth = 1000\<close> the layout has one line whose string
  range is \<open>[0, 3)\<close>, with one run of range \<open>[0, 3)\<close>: offset \<open>3\<close> is not covered. A
  whitespace token advances the character position by one, whatever its length.
\<close>

theorem createLayout_loses_offset_of_second_space:
  "length (getText (plainText ''a  b'' 1)) = 4
   \<and> map (rect_w \<circ> area) (addTextRuns fixedPitch (plainText ''a  b'' 1)) = [10, 20, 10]
   \<and> map line_stringRange
       (lines (createLayout fixedPitch (plainText ''a  b'' 1) 1000 emptyLayout))
       = [\<lparr>rstart = 0, rend = 3\<rparr>]
   \<and> map (map run_stringRange \<circ> runs)
       (lines (createLayout fixedPitch (plainText ''a  b'' 1) 1000 emptyLayout))
       = [[\<lparr>rstart = 0, rend = 3\<rparr>]]"
  by code_simp

text \<open>
  C4 (as the code behaves): the unattributed text \<open>a\<close>, \<open>10\<close> wide, laid out at
  \<open>maxWidth = 1000\<close>: no style range and no token is made, and the layout has no line.
\<close>

theorem createLayout_single_character_has_no_line:
  "getRunAttributes fixedPitch (plainText ''a'' 1) = []
   \<and> addTextRuns fixedPitch (plainText ''a'' 1) = []
   \<and> lines (createLayout fixedPitch (plainText ''a'' 1) 1000 emptyLayout) = []"
  by code_simp

subsection \<open>The line breaker\<close>

lemma static_lineHeight: "static (t\<lparr>lineHeight := h\<rparr>) = static t"
  by (simp add: static_def)

lemma placed_lineHeight: "placed (t\<lparr>lineHeight := h\<rparr>) = placed t"
  by (simp add: placed_def)

lemma static_placeToken: "static (placeToken t x y l) = static t"
  by (simp add: static_def setPosition_def placeToken_def)

lemma placed_placeToken: "placed (placeToken t x y l) = (x, y, l)"
  by (simp add: placed_def setPosition_def placeToken_def)

lemma map_update_same:
  assumes "g y = g (xs ! i)"
  shows "map g (xs[i := y]) = map g xs"
proof (cases "i < length xs")
  case True
  then show ?thesis using assms by (simp add: map_update list_update_same_conv)
next
  case False
  then have "xs[i := y] = xs" by (simp add: list_update_beyond)
  then show ?thesis by simp
qed

lemma setLastLineHeight_map:
  assumes "\<And>t h. g (t\<lparr>lineHeight := h\<rparr>) = g t"
  shows "map g (setLastLineHeight k i h toks) = map g toks"
proof (induction i arbitrary: toks)
  case 0
  show ?case by simp
next
  case (Suc i)
  show ?case by (simp add: Suc assms map_update_same)
qed

lemma map_eq_nth: "map g xs = map g ys \<Longrightarrow> j < length ys \<Longrightarrow> g (xs ! j) = g (ys ! j)"
  by (metis length_map nth_map)

lemma breaksAfter_cong:
  "static a = static a' \<Longrightarrow> static b = static b' \<Longrightarrow> rect_x (area a) = rect_x (area a') \<Longrightarrow>
   breaksAfter mw a b = breaksAfter mw a' b'"
  by (simp add: static_def breaksAfter_def)

lemma layoutLoop_master:
  "length (fst (layoutLoop mw i x y h k toks)) = length toks
   \<and> map static (fst (layoutLoop mw i x y h k toks)) = map static toks
   \<and> (\<forall>j. j < i \<and> j < length toks \<longrightarrow>
         placed (fst (layoutLoop mw i x y h k toks) ! j) = placed (toks ! j))
   \<and> (i < length toks \<longrightarrow>
         rect_x (area (fst (layoutLoop mw i x y h k toks) ! i)) = x
         \<and> tok_line (fst (layoutLoop mw i x y h k toks) ! i) = k)
   \<and> (\<forall>j. i \<le> j \<and> Suc j < length toks \<longrightarrow>
         stepOK mw (fst (layoutLoop mw i x y h k toks) ! j)
                   (fst (layoutLoop mw i x y h k toks) ! Suc j))
   \<and> (i < length toks \<longrightarrow>
         snd (snd (snd (layoutLoop mw i x y h k toks)))
           = tok_line (fst (layoutLoop mw i x y h k toks) ! (length toks - 1)))"
proof (induction mw i x y h k toks rule: layoutLoop.induct)
  case (1 mw i x y h k toks)
  define t where "t = placeToken (toks ! i) x y k"
  define toks1 where "toks1 = toks[i := t]"
  define x1 where "x1 = x + rect_w (area t)"
  define h1 where "h1 = max h (rect_h (area t))"
  define nx where "nx = toks1 ! Suc i"
  define c where "c = (isNewLine t \<or> (\<not> isWhitespace nx \<and> mw < x1 + rect_w (area nx)))"
  define R where "R = fst (layoutLoop mw i x y h k toks)"
  have unf: "layoutLoop mw i x y h k toks =
        (if i < length toks then
           if Suc i < length toks then
             if c then layoutLoop mw (Suc i) 0 (y + h1) 0 (k + 1)
                         (setLastLineHeight k (Suc i) h1 toks1)
             else layoutLoop mw (Suc i) x1 y h1 k toks1
           else (toks1, i, h1, k)
         else (toks, i, h, k))"
    by (subst layoutLoop.simps)
       (simp add: Let_def t_def toks1_def x1_def h1_def nx_def c_def)
  have st1: "map static toks1 = map static toks"
    by (simp add: toks1_def t_def map_update_same static_placeToken)
  have len1: "length toks1 = length toks" by (simp add: toks1_def)
  show ?case
  proof (cases "i < length toks")
    case False
    then show ?thesis by (auto simp add: unf)
  next
    case il: True
    have pl_i: "placed (toks1 ! i) = (x, y, k)"
      using il by (simp add: toks1_def t_def placed_placeToken)
    have pl_below: "\<And>j. j < i \<Longrightarrow> placed (toks1 ! j) = placed (toks ! j)"
      by (simp add: toks1_def)
    show ?thesis
    proof (cases "Suc i < length toks")
      case False
      then have ie: "length toks - Suc 0 = i" using il by simp
      show ?thesis
        using False il pl_i st1 pl_below
        by (auto simp add: unf len1 placed_def ie)
    next
      case sl: True
      define toks2 where "toks2 = (if c then setLastLineHeight k (Suc i) h1 toks1 else toks1)"
      define x2 where "x2 = (if c then 0 else x1)"
      define y2 where "y2 = (if c then y + h1 else y)"
      define h2 where "h2 = (if c then 0 else h1)"
      define k2 where "k2 = (if c then k + 1 else k)"
      have Rw: "layoutLoop mw i x y h k toks = layoutLoop mw (Suc i) x2 y2 h2 k2 toks2"
        using il sl by (simp add: unf toks2_def x2_def y2_def h2_def k2_def)
      have Rq: "fst (layoutLoop mw i x y h k toks) = fst (layoutLoop mw (Suc i) x2 y2 h2 k2 toks2)"
        by (simp add: Rw)
      have IH: "length (fst (layoutLoop mw (Suc i) x2 y2 h2 k2 toks2)) = length toks2
        \<and> map static (fst (layoutLoop mw (Suc i) x2 y2 h2 k2 toks2)) = map static toks2
        \<and> (\<forall>j. j < Suc i \<and> j < length toks2 \<longrightarrow>
              placed (fst (layoutLoop mw (Suc i) x2 y2 h2 k2 toks2) ! j) = placed (toks2 ! j))
        \<and> (Suc i < length toks2 \<longrightarrow>
              rect_x (area (fst (layoutLoop mw (Suc i) x2 y2 h2 k2 toks2) ! Suc i)) = x2
              \<and> tok_line (fst (layoutLoop mw (Suc i) x2 y2 h2 k2 toks2) ! Suc i) = k2)
        \<and> (\<forall>j. Suc i \<le> j \<and> Suc j < length toks2 \<longrightarrow>
              stepOK mw (fst (layoutLoop mw (Suc i) x2 y2 h2 k2 toks2) ! j)
                        (fst (layoutLoop mw (Suc i) x2 y2 h2 k2 toks2) ! Suc j))
        \<and> (Suc i < length toks2 \<longrightarrow>
              snd (snd (snd (layoutLoop mw (Suc i) x2 y2 h2 k2 toks2)))
                = tok_line (fst (layoutLoop mw (Suc i) x2 y2 h2 k2 toks2) ! (length toks2 - 1)))"
      proof (cases c)
        case True
        then have cc: "isNewLine t \<or> (\<not> isWhitespace nx \<and> mw < x1 + rect_w (area nx))"
          by (simp add: c_def)
        show ?thesis
          using "1.IH"(1) [OF il t_def toks1_def x1_def h1_def sl nx_def cc] True
          by (simp add: toks2_def x2_def y2_def h2_def k2_def del: setLastLineHeight.simps)
      next
        case False
        then have cc: "\<not> (isNewLine t \<or> (\<not> isWhitespace nx \<and> mw < x1 + rect_w (area nx)))"
          by (simp add: c_def)
        show ?thesis
          using "1.IH"(2) [OF il t_def toks1_def x1_def h1_def sl nx_def cc] False
          by (simp add: toks2_def x2_def y2_def h2_def k2_def del: setLastLineHeight.simps)
      qed
      have len2: "length toks2 = length toks" by (simp add: toks2_def len1)
      have st2: "map static toks2 = map static toks"
        by (simp add: toks2_def st1 setLastLineHeight_map static_lineHeight
            del: setLastLineHeight.simps)
      have pl2: "map placed toks2 = map placed toks1"
        by (simp add: toks2_def setLastLineHeight_map placed_lineHeight
            del: setLastLineHeight.simps)
      have stR: "map static R = map static toks"
        using IH st2 by (simp add: R_def Rq)
      have plR_i: "placed (R ! i) = (x, y, k)"
      proof -
        have "placed (R ! i) = placed (toks2 ! i)"
          using IH il len2 by (simp add: R_def Rq)
        also have "\<dots> = placed (toks1 ! i)"
          using map_eq_nth [OF pl2, of i] il len1 by simp
        finally show ?thesis using pl_i by simp
      qed
      have plR_below: "\<And>j. j < i \<Longrightarrow> placed (R ! j) = placed (toks ! j)"
      proof -
        fix j assume ji: "j < i"
        have "placed (R ! j) = placed (toks2 ! j)"
          using IH il len2 ji by (simp add: R_def Rq)
        also have "\<dots> = placed (toks1 ! j)"
          using map_eq_nth [OF pl2, of j] il len1 ji by simp
        finally show "placed (R ! j) = placed (toks ! j)" using pl_below [OF ji] by simp
      qed
      have RS: "rect_x (area (R ! Suc i)) = x2" "tok_line (R ! Suc i) = k2"
        using IH sl len2 by (simp_all add: R_def Rq)
      have s_i: "static (R ! i) = static (toks ! i)"
        using map_eq_nth [OF stR, of i] il by simp
      have s_Si: "static (R ! Suc i) = static (toks ! Suc i)"
        using map_eq_nth [OF stR, of "Suc i"] sl by simp
      have tst: "static t = static (toks ! i)" by (simp add: t_def static_placeToken)
      have nxst: "nx = toks ! Suc i" by (simp add: nx_def toks1_def)
      have tx: "rect_x (area t) = x" by (simp add: t_def placeToken_def setPosition_def)
      have Rx: "rect_x (area (R ! i)) = x" "tok_line (R ! i) = k"
        using plR_i by (simp_all add: placed_def)
      have cb: "breaksAfter mw (R ! i) (R ! Suc i) = c"
      proof -
        have "breaksAfter mw (R ! i) (R ! Suc i) = breaksAfter mw t nx"
          by (rule breaksAfter_cong) (simp_all add: s_i s_Si tst nxst tx Rx)
        also have "\<dots> = c"
          by (simp add: breaksAfter_def c_def x1_def tx)
        finally show ?thesis .
      qed
      have gr: "getRight (area (R ! i)) = x1"
        using s_i tst Rx by (simp add: getRight_def x1_def static_def)
      have step_i: "stepOK mw (R ! i) (R ! Suc i)"
        by (simp add: stepOK_def cb RS Rx gr x2_def k2_def)
      have step_above: "\<And>j. Suc i \<le> j \<Longrightarrow> Suc j < length toks \<Longrightarrow> stepOK mw (R ! j) (R ! Suc j)"
        using IH len2 by (simp add: R_def Rq)
      have steps: "\<And>j. i \<le> j \<Longrightarrow> Suc j < length toks \<Longrightarrow> stepOK mw (R ! j) (R ! Suc j)"
      proof -
        fix j assume a: "i \<le> j" "Suc j < length toks"
        show "stepOK mw (R ! j) (R ! Suc j)"
        proof (cases "j = i")
          case True
          then show ?thesis using step_i by simp
        next
          case False
          with a have "Suc i \<le> j" by simp
          then show ?thesis using step_above a by simp
        qed
      qed
      have lenR: "length R = length toks" using IH len2 by (simp add: R_def Rq)
      have fin: "snd (snd (snd (layoutLoop mw i x y h k toks))) = tok_line (R ! (length toks - 1))"
        using IH sl len2 by (simp add: R_def Rq Rw)
      show ?thesis
        unfolding R_def [symmetric]
        using lenR stR plR_below Rx steps fin by simp
    qed
  qed
qed


lemma layoutRuns_fst:
  "map static (fst (layoutRuns mw toks)) = map static (fst (layoutLoop mw 0 0 0 0 0 toks))
   \<and> map placed (fst (layoutRuns mw toks)) = map placed (fst (layoutLoop mw 0 0 0 0 0 toks))"
  by (simp add: layoutRuns_def split_beta setLastLineHeight_map static_lineHeight
      placed_lineHeight)

lemma stepOK_cong:
  "static a = static a' \<Longrightarrow> placed a = placed a' \<Longrightarrow> static b = static b' \<Longrightarrow>
   placed b = placed b' \<Longrightarrow> stepOK mw a b = stepOK mw a' b'"
  by (simp add: stepOK_def breaksAfter_def static_def placed_def getRight_def)

lemma layoutRuns_step:
  assumes "Suc i < length toks"
  shows "length (fst (layoutRuns mw toks)) = length toks
   \<and> map static (fst (layoutRuns mw toks)) = map static toks
   \<and> tok_line (fst (layoutRuns mw toks) ! 0) = 0
   \<and> rect_x (area (fst (layoutRuns mw toks) ! 0)) = 0
   \<and> tok_line (fst (layoutRuns mw toks) ! Suc i) =
       tok_line (fst (layoutRuns mw toks) ! i)
       + (if breaksAfter mw (fst (layoutRuns mw toks) ! i) (fst (layoutRuns mw toks) ! Suc i)
          then 1 else 0)
   \<and> rect_x (area (fst (layoutRuns mw toks) ! Suc i)) =
       (if breaksAfter mw (fst (layoutRuns mw toks) ! i) (fst (layoutRuns mw toks) ! Suc i)
        then 0 else getRight (area (fst (layoutRuns mw toks) ! i)))"
proof -
  define R where "R = fst (layoutLoop mw 0 0 0 0 0 toks)"
  define F where "F = fst (layoutRuns mw toks)"
  have sF: "map static F = map static R" and pF: "map placed F = map placed R"
    using layoutRuns_fst [of mw toks] by (simp_all add: F_def R_def)
  have ne: "toks \<noteq> []" using assms by auto
  have m: "length R = length toks" "map static R = map static toks"
    "rect_x (area (R ! 0)) = 0" "tok_line (R ! 0) = 0" "stepOK mw (R ! i) (R ! Suc i)"
    using layoutLoop_master [of mw 0 0 0 0 0 toks] assms ne by (auto simp add: R_def)
  have lF: "length F = length toks"
    using sF m(1) by (metis length_map)
  have i0: "0 < length R" "i < length R" "Suc i < length R" using assms m(1) by auto
  have p0: "placed (F ! 0) = placed (R ! 0)" using map_eq_nth [OF pF i0(1)] .
  have pi: "placed (F ! i) = placed (R ! i)" using map_eq_nth [OF pF i0(2)] .
  have ps: "placed (F ! Suc i) = placed (R ! Suc i)" using map_eq_nth [OF pF i0(3)] .
  have si: "static (F ! i) = static (R ! i)" using map_eq_nth [OF sF i0(2)] .
  have ss: "static (F ! Suc i) = static (R ! Suc i)" using map_eq_nth [OF sF i0(3)] .
  have st: "stepOK mw (F ! i) (F ! Suc i)"
    using stepOK_cong [OF si pi ss ps] m(5) by simp
  have z: "rect_x (area (F ! 0)) = 0" "tok_line (F ! 0) = 0"
    using p0 m(3,4) by (simp_all add: placed_def)
  show ?thesis
    unfolding F_def [symmetric]
    using lF sF m(2) z st by (simp add: stepOK_def)
qed

lemma layoutRuns_totalLines:
  "toks \<noteq> [] \<Longrightarrow>
   snd (layoutRuns mw toks) = tok_line (fst (layoutRuns mw toks) ! (length toks - 1)) + 1"
proof -
  assume ne: "toks \<noteq> []"
  define R where "R = fst (layoutLoop mw 0 0 0 0 0 toks)"
  have m: "length R = length toks"
    "snd (snd (snd (layoutLoop mw 0 0 0 0 0 toks))) = tok_line (R ! (length toks - 1))"
    using layoutLoop_master [of mw 0 0 0 0 0 toks] ne by (auto simp add: R_def)
  have p: "map placed (fst (layoutRuns mw toks)) = map placed R"
    using layoutRuns_fst [of mw toks] by (simp add: R_def)
  have "placed (fst (layoutRuns mw toks) ! (length toks - 1)) = placed (R ! (length toks - 1))"
    using map_eq_nth [OF p, of "length toks - 1"] m(1) ne by simp
  then have "tok_line (fst (layoutRuns mw toks) ! (length toks - 1)) = tok_line (R ! (length toks - 1))"
    by (simp add: placed_def)
  moreover have "snd (layoutRuns mw toks) = snd (snd (snd (layoutLoop mw 0 0 0 0 0 toks))) + 1"
    by (simp add: layoutRuns_def split_beta)
  ultimately show ?thesis using m(2) by simp
qed

lemma layoutRuns_Nil: "layoutRuns mw [] = ([], 1)"
  by (simp add: layoutRuns_def layoutLoop.simps [of _ 0 _ _ _ _ "[]"])

lemma layoutRuns_basic:
  "length (fst (layoutRuns mw toks)) = length toks
   \<and> map static (fst (layoutRuns mw toks)) = map static toks
   \<and> (toks \<noteq> [] \<longrightarrow> tok_line (fst (layoutRuns mw toks) ! 0) = 0
                      \<and> rect_x (area (fst (layoutRuns mw toks) ! 0)) = 0)"
proof -
  define R where "R = fst (layoutLoop mw 0 0 0 0 0 toks)"
  define F where "F = fst (layoutRuns mw toks)"
  have sF: "map static F = map static R" and pF: "map placed F = map placed R"
    using layoutRuns_fst [of mw toks] by (simp_all add: F_def R_def)
  have m: "length R = length toks" "map static R = map static toks"
    using layoutLoop_master [of mw 0 0 0 0 0 toks] by (simp_all add: R_def)
  have lF: "length F = length toks"
    using sF m(1) by (metis length_map)
  have z: "rect_x (area (F ! 0)) = 0 \<and> tok_line (F ! 0) = 0" if ne: "toks \<noteq> []"
  proof -
    have r: "rect_x (area (R ! 0)) = 0" "tok_line (R ! 0) = 0"
      using layoutLoop_master [of mw 0 0 0 0 0 toks] ne by (auto simp add: R_def)
    have "0 < length R" using ne m(1) by auto
    then have "placed (F ! 0) = placed (R ! 0)" using map_eq_nth [OF pF] by blast
    then show ?thesis using r by (simp add: placed_def)
  qed
  show ?thesis
    unfolding F_def [symmetric]
    using lF sF m(2) z by simp
qed

text \<open>
  C2: in \<open>layoutRuns\<close>, for every token list and \<open>maxWidth\<close>: the tokens keep their
  number, texts, widths and flags (none is split, whatever its width); an empty list
  gives one line; the first token is on line \<open>0\<close> at \<open>x = 0\<close>, also when it is the only
  one and wider than \<open>maxWidth\<close>, and the number of lines is the line of the last token
  plus one. The line ends after a token that has a successor exactly when the token is a
  line break, or the next token is not whitespace and placing it would exceed
  \<open>maxWidth\<close> (\<open>x + nextWidth > maxWidth\<close>, \<open>x\<close> the right edge of the token): the next token is
  then on the next line at \<open>x = 0\<close>, and otherwise on the same line at the right edge of
  the token. Hence a whitespace token after a token that is no line break stays on its
  line. The sums are those of unbounded integers: where \<open>x + nextWidth\<close> leaves the range
  of \<^verbatim>\<open>int\<close> the C++ is undefined.
\<close>

theorem layoutRuns_breaks:
  "length (fst (layoutRuns mw toks)) = length toks
   \<and> map static (fst (layoutRuns mw toks)) = map static toks
   \<and> (toks = [] \<longrightarrow> layoutRuns mw toks = ([], 1))
   \<and> (toks \<noteq> [] \<longrightarrow>
         tok_line (fst (layoutRuns mw toks) ! 0) = 0
       \<and> rect_x (area (fst (layoutRuns mw toks) ! 0)) = 0
       \<and> snd (layoutRuns mw toks)
           = tok_line (fst (layoutRuns mw toks) ! (length toks - 1)) + 1)
   \<and> (Suc i < length toks \<longrightarrow>
         tok_line (fst (layoutRuns mw toks) ! Suc i) =
           tok_line (fst (layoutRuns mw toks) ! i)
           + (if breaksAfter mw (fst (layoutRuns mw toks) ! i)
                   (fst (layoutRuns mw toks) ! Suc i)
              then 1 else 0)
       \<and> rect_x (area (fst (layoutRuns mw toks) ! Suc i)) =
           (if breaksAfter mw (fst (layoutRuns mw toks) ! i)
                 (fst (layoutRuns mw toks) ! Suc i)
            then 0 else getRight (area (fst (layoutRuns mw toks) ! i)))
       \<and> (isWhitespace (fst (layoutRuns mw toks) ! Suc i)
              \<and> \<not> isNewLine (fst (layoutRuns mw toks) ! i)
            \<longrightarrow> tok_line (fst (layoutRuns mw toks) ! Suc i)
                  = tok_line (fst (layoutRuns mw toks) ! i)))"
proof -
  have w: "isWhitespace (fst (layoutRuns mw toks) ! Suc i)
        \<and> \<not> isNewLine (fst (layoutRuns mw toks) ! i) \<Longrightarrow>
      \<not> breaksAfter mw (fst (layoutRuns mw toks) ! i) (fst (layoutRuns mw toks) ! Suc i)"
    by (simp add: breaksAfter_def)
  have e: "toks = [] \<Longrightarrow> layoutRuns mw toks = ([], 1)"
    by (simp add: layoutRuns_Nil)
  have t: "toks \<noteq> [] \<Longrightarrow> snd (layoutRuns mw toks)
           = tok_line (fst (layoutRuns mw toks) ! (length toks - 1)) + 1"
    by (rule layoutRuns_totalLines)
  have s: "Suc i < length toks \<Longrightarrow>
         tok_line (fst (layoutRuns mw toks) ! Suc i) =
           tok_line (fst (layoutRuns mw toks) ! i)
           + (if breaksAfter mw (fst (layoutRuns mw toks) ! i)
                   (fst (layoutRuns mw toks) ! Suc i)
              then 1 else 0)
       \<and> rect_x (area (fst (layoutRuns mw toks) ! Suc i)) =
           (if breaksAfter mw (fst (layoutRuns mw toks) ! i)
                 (fst (layoutRuns mw toks) ! Suc i)
            then 0 else getRight (area (fst (layoutRuns mw toks) ! i)))"
    using layoutRuns_step [of i toks mw] by simp
  show ?thesis
    using layoutRuns_basic [of mw toks] w e t s by auto
qed

theorem layoutRuns_breaks_witness:
  "layoutRuns 60 ([] :: nat token list) = ([], 1)
   \<and> length loneToken = 1
   \<and> map (rect_w \<circ> area) loneToken = [70]
   \<and> length (fst (layoutRuns 60 loneToken)) = 1
   \<and> map static (fst (layoutRuns 60 loneToken)) = map static loneToken
   \<and> tok_line (fst (layoutRuns 60 loneToken) ! 0) = 0
   \<and> rect_x (area (fst (layoutRuns 60 loneToken) ! 0)) = 0
   \<and> 60 < getRight (area (fst (layoutRuns 60 loneToken) ! 0))
   \<and> snd (layoutRuns 60 loneToken) = 1
   \<and> Suc 1 < length wrapTokens
   \<and> map (rect_w \<circ> area) wrapTokens = [40, 10, 70]
   \<and> \<not> breaksAfter 60 (fst (layoutRuns 60 wrapTokens) ! 0) (fst (layoutRuns 60 wrapTokens) ! 1)
   \<and> breaksAfter 60 (fst (layoutRuns 60 wrapTokens) ! 1) (fst (layoutRuns 60 wrapTokens) ! 2)
   \<and> tok_line (fst (layoutRuns 60 wrapTokens) ! 1) = 0
   \<and> tok_line (fst (layoutRuns 60 wrapTokens) ! 2) = 1
   \<and> rect_x (area (fst (layoutRuns 60 wrapTokens) ! 2)) = 0
   \<and> 60 < getRight (area (fst (layoutRuns 60 wrapTokens) ! 2))
   \<and> length (fst (layoutRuns 60 wrapTokens)) = 3
   \<and> snd (layoutRuns 60 wrapTokens) = 2"
proof -
  have l1: "length loneToken = 1" by code_simp
  have w1: "map (rect_w \<circ> area) loneToken = [70]" by code_simp
  have g1: "60 < getRight (area (fst (layoutRuns 60 loneToken) ! 0))" by code_simp
  have n1: "loneToken \<noteq> []" using l1 by auto
  have l: "length wrapTokens = 3" by code_simp
  have w: "map (rect_w \<circ> area) wrapTokens = [40, 10, 70]" by code_simp
  have b0: "\<not> breaksAfter 60 (fst (layoutRuns 60 wrapTokens) ! 0)
                (fst (layoutRuns 60 wrapTokens) ! 1)"
    by code_simp
  have b1: "breaksAfter 60 (fst (layoutRuns 60 wrapTokens) ! 1)
                (fst (layoutRuns 60 wrapTokens) ! 2)"
    by code_simp
  have n3: "wrapTokens \<noteq> []" using l by auto
  have g: "60 < getRight (area (fst (layoutRuns 60 wrapTokens) ! 2))"
    by code_simp
  show ?thesis
    using layoutRuns_breaks [of 60 "[] :: nat token list" 0]
      layoutRuns_breaks [of 60 loneToken 0]
      layoutRuns_breaks [of 60 wrapTokens 0] layoutRuns_breaks [of 60 wrapTokens 1]
      b0 b1 l w g l1 w1 g1 n1 n3
    by (simp add: numeral_2_eq_2)
qed

subsection \<open>The justification pass\<close>

lemma centred_is_justified:
  assumes "hasFlag flags Justification_horizontallyCentred"
  shows "hasFlag flags (Justification_right OR Justification_horizontallyCentred)"
proof -
  define r where "r = Justification_right"
  define h where "h = Justification_horizontallyCentred"
  have a: "flags AND h \<noteq> 0" using assms by (simp add: hasFlag_def h_def)
  have "(r OR h) AND h = h" by (auto simp: bit_eq_iff bit_and_iff bit_or_iff)
  then have "flags AND h = (flags AND (r OR h)) AND h" by (simp add: and.assoc)
  with a have "flags AND (r OR h) \<noteq> 0" by auto
  then show ?thesis by (simp add: hasFlag_def r_def h_def)
qed

text \<open>
  C6 (counterexample): the centred text \<open>aaaaaaaaaa\<close>, one line of measured width \<open>100\<close>,
  laid out by \<open>createLayout\<close> at width \<open>200\<close>: in the layout returned, the x of the line
  origin is what the main loop set (\<open>0\<close>), not that value plus \<open>50\<close>.
\<close>

theorem centred_shift_cancelled_by_recalculateWidth:
  "hasFlag (getJustification centredText) Justification_horizontallyCentred
   \<and> length (lines (createLayout fixedPitch centredText 200 emptyLayout)) = 1
   \<and> getLineWidth (layoutTokens fixedPitch centredText 200) 0 = 100
   \<and> pt_x (lineOrigin (hd (lines (createLayout fixedPitch centredText 200 emptyLayout))))
       \<noteq> pt_x (lineOrigin (hd (lines (buildLines fixedPitch centredText
                (clearedLayout centredText 200 emptyLayout))))) + 50"
proof -
  have a: "hasFlag (getJustification centredText) Justification_horizontallyCentred"
    by code_simp
  have b: "length (lines (createLayout fixedPitch centredText 200 emptyLayout)) = 1"
    by code_simp
  have c: "getLineWidth (layoutTokens fixedPitch centredText 200) 0 = 100"
    by code_simp
  have d: "pt_x (lineOrigin (hd (lines (createLayout fixedPitch centredText 200
             emptyLayout)))) = 0"
    by code_simp
  have e: "pt_x (lineOrigin (hd (lines (buildLines fixedPitch centredText
             (clearedLayout centredText 200 emptyLayout))))) = 0"
    by code_simp
  show ?thesis using a b c d e by simp
qed

text \<open>
  C6 (amended): for a text whose justification has \<open>horizontallyCentred\<close>, a layout width
  of \<open>200\<close> and a single line of measured width \<open>100\<close>, the justification pass of
  \<open>TokenList::createLayout\<close> shifts the x of the line origin by \<open>+50\<close>. \<open>createLayout\<close>
  then runs \<open>recalculateWidth\<close>: the returned layout keeps that origin when the reading
  direction is right to left, and otherwise has the left end of the line's bounds
  subtracted from it.
\<close>

theorem centred_shift_before_normalisation:
  assumes n: "createNativeLayout M atext (clearedLayout atext 200 layout) = None"
    and c: "hasFlag (getJustification atext) Justification_horizontallyCentred"
    and l: "lines (buildLines M atext (clearedLayout atext 200 layout)) = [l]"
    and w: "getLineWidth (layoutTokens M atext 200) 0 = 100"
  shows "lines (TokenList_createLayout M atext (clearedLayout atext 200 layout)) = [shiftedBy 50 l]
    \<and> lines (createLayout M atext 200 layout) =
        (if getReadingDirection atext = rightToLeft then [shiftedBy 50 l]
         else [shiftOrigin (rstart (getLineBoundsX (shiftedBy 50 l))) (shiftedBy 50 l)])"
proof -
  have lw: "layoutWidth (clearedLayout atext 200 layout) = 200"
    by (simp add: clearedLayout_def)
  have t: "truncToInt 200 = 200" by (simp add: truncToInt_def)
  have lwb: "layoutWidth (buildLines M atext (clearedLayout atext 200 layout)) = 200"
    by (simp add: buildLines_def clearedLayout_def)
  have a: "lines (TokenList_createLayout M atext (clearedLayout atext 200 layout)) = [shiftedBy 50 l]"
    using centred_is_justified [OF c] c l w
    by (simp add: TokenList_createLayout_def justifyLines_def lw lwb t shiftedBy_def)
  have b: "linesBounds [shiftedBy 50 l] = getLineBoundsX (shiftedBy 50 l)"
    by (simp add: linesBounds_def)
  show ?thesis
    using a n b by (simp add: createLayout_def createStandardLayout_def recalculateWidth_def)
qed


theorem centred_shift_before_normalisation_witness:
  "lines (TokenList_createLayout fixedPitch centredText
            (clearedLayout centredText 200 emptyLayout))
     = [shiftedBy 50 (hd (lines (buildLines fixedPitch centredText
                                   (clearedLayout centredText 200 emptyLayout))))]
   \<and> pt_x (lineOrigin (hd (lines (buildLines fixedPitch centredText
                                   (clearedLayout centredText 200 emptyLayout))))) = 0
   \<and> pt_x (lineOrigin (hd (lines (TokenList_createLayout fixedPitch centredText
                                   (clearedLayout centredText 200 emptyLayout))))) = 50"
proof -
  have n: "createNativeLayout fixedPitch centredText
             (clearedLayout centredText 200 emptyLayout) = None"
    by (simp add: fixedPitch_def)
  have c: "hasFlag (getJustification centredText) Justification_horizontallyCentred"
    by code_simp
  have len: "length (lines (buildLines fixedPitch centredText
               (clearedLayout centredText 200 emptyLayout))) = 1"
    by code_simp
  have l: "lines (buildLines fixedPitch centredText (clearedLayout centredText 200 emptyLayout))
             = [hd (lines (buildLines fixedPitch centredText
                             (clearedLayout centredText 200 emptyLayout)))]"
    using len
    by (cases "lines (buildLines fixedPitch centredText
                        (clearedLayout centredText 200 emptyLayout))") simp_all
  have w: "getLineWidth (layoutTokens fixedPitch centredText 200) 0 = 100"
    by code_simp
  have e: "pt_x (lineOrigin (hd (lines (buildLines fixedPitch centredText
             (clearedLayout centredText 200 emptyLayout))))) = 0"
    by code_simp
  show ?thesis
    using centred_shift_before_normalisation [OF n c l w] e
    by (simp add: shiftedBy_def)
qed

subsection \<open>Attribute resolution\<close>

lemma styleLoop_done:
  "\<not> i < n \<Longrightarrow> styleLoop M atext n i rs lastFC acc = acc"
  by (subst styleLoop.simps) simp

lemma styleLoop_last:
  assumes "2 \<le> n" "0 \<le> i" "i < n" "0 \<le> rs" "rs \<le> i"
    and "0 < i \<Longrightarrow> rs < i \<and> lastFC = resolveStyle M atext (i - 1)"
  shows "\<exists>rs' pre. 0 \<le> rs' \<and> rs' < n \<and>
           styleLoop M atext n i rs lastFC acc =
             pre @ [\<lparr>ra_fontAndColour = resolveStyle M atext (n - 2),
                     ra_range = \<lparr>rstart = rs', rend = n\<rparr>\<rparr>]"
  using assms
proof (induction M atext n i rs lastFC acc rule: styleLoop.induct)
  case (1 M atext n i rs lastFC acc)
  show ?case
  proof (cases "i = n - 1")
    case True
    with "1.prems" have pos: "0 < i" by simp
    with "1.prems" have l: "lastFC = resolveStyle M atext (n - 2)" and r: "rs < i"
      using True by auto
    have "styleLoop M atext n i rs lastFC acc =
            acc @ [\<lparr>ra_fontAndColour = lastFC, ra_range = Range_of rs (i + 1)\<rparr>]"
      using True pos "1.prems"(3)
      by (subst styleLoop.simps) (simp add: Let_def styleLoop_done)
    moreover have "Range_of rs (i + 1) = \<lparr>rstart = rs, rend = n\<rparr>"
      using True r by (simp add: Range_of_def)
    ultimately show ?thesis
      using l r True "1.prems"(4) by auto
  next
    case False
    with "1.prems" have lt: "i + 1 < n" by simp
    show ?thesis
    proof (cases "0 < i \<and> fc_neq (resolveStyle M atext i) lastFC")
      case True
      have e: "styleLoop M atext n i rs lastFC acc =
            styleLoop M atext n (i + 1) i (resolveStyle M atext i)
              (acc @ [\<lparr>ra_fontAndColour = lastFC,
                 ra_range = Range_of rs (if i < n - 1 then i else i + 1)\<rparr>])"
        using True "1.prems"(3) by (subst styleLoop.simps) (simp add: Let_def)
      show ?thesis
        unfolding e
        using "1.prems"(3) True lt "1.prems"(1,2)
        by (intro "1.IH"(1)) (auto simp: Let_def)
    next
      case F2: False
      have e: "styleLoop M atext n i rs lastFC acc =
            styleLoop M atext n (i + 1) rs (resolveStyle M atext i) acc"
        using F2 False "1.prems"(3) by (subst styleLoop.simps) (auto simp: Let_def)
      show ?thesis
        unfolding e
        using "1.prems" F2 False lt
        by (intro "1.IH"(2)) (auto simp: Let_def)
    qed
  qed
qed

lemma flushToken_new:
  "\<exists>new. flushToken M f col cur ws toks = toks @ new \<and> concat (map tok_text new) = cur
         \<and> list_all (styled f col) new"
  by (auto simp: flushToken_def Token_def styled_def)

lemma appendLoop_new:
  "\<exists>new. appendLoop M f col s cur lct toks = toks @ new
         \<and> concat (map tok_text new) = cur @ s
         \<and> list_all (styled f col) new"
proof (induction M f col s cur lct toks rule: appendLoop.induct)
  case (1 M f col cur lct toks)
  then show ?case using flushToken_new [of M f col cur "lct = 2" toks] by simp
next
  case (2 M f col c cur lct toks)
  show ?case
  proof (cases "getCharacterType c = 0 \<or> getCharacterType c \<noteq> lct")
    case True
    obtain n1 where n1: "flushToken M f col cur (lct = 2 \<or> lct = 0) toks = toks @ n1"
      "concat (map tok_text n1) = cur" "list_all (styled f col) n1"
      using flushToken_new [of M f col cur "lct = 2 \<or> lct = 0" toks] by blast
    obtain n2 where n2: "appendLoop M f col [] [c] (getCharacterType c) (toks @ n1) = (toks @ n1) @ n2"
      "concat (map tok_text n2) = [c] @ []" "list_all (styled f col) n2"
      using "2.IH"(1) [OF refl True] n1(1) by (metis)
    show ?thesis
      using True n1 n2 by (intro exI [of _ "n1 @ n2"]) (simp add: Let_def del: appendLoop.simps(1))
  next
    case False
    then show ?thesis
      using "2.IH"(2) [OF refl False] by (simp add: Let_def del: appendLoop.simps(1))
  qed
next
  case (3 M f col c c2 t cur lct toks)
  show ?case
  proof (cases "getCharacterType c = 0 \<or> getCharacterType c \<noteq> lct")
    case True
    obtain n1 where n1: "flushToken M f col cur (lct = 2 \<or> lct = 0) toks = toks @ n1"
      "concat (map tok_text n1) = cur" "list_all (styled f col) n1"
      using flushToken_new [of M f col cur "lct = 2 \<or> lct = 0" toks] by blast
    show ?thesis
    proof (cases "c = CHR 0x0D \<and> c2 = CHR 0x0A")
      case T2: True
      obtain n2 where n2: "appendLoop M f col t [c, c2] (getCharacterType c) (toks @ n1) = (toks @ n1) @ n2"
        "concat (map tok_text n2) = [c, c2] @ t" "list_all (styled f col) n2"
        using "3.IH"(1) [OF refl True refl T2] n1(1) by metis
      show ?thesis
        using True T2 n1 n2 by (intro exI [of _ "n1 @ n2"]) (simp add: Let_def)
    next
      case F2: False
      obtain n2 where n2: "appendLoop M f col (c2 # t) [c] (getCharacterType c) (toks @ n1) = (toks @ n1) @ n2"
        "concat (map tok_text n2) = [c] @ c2 # t" "list_all (styled f col) n2"
        using "3.IH"(2) [OF refl True refl F2] n1(1) by metis
      show ?thesis
        using True F2 n1 n2 by (intro exI [of _ "n1 @ n2"]) (auto simp add: Let_def)
    qed
  next
    case False
    then show ?thesis
      using "3.IH"(3) [OF refl False] by (simp add: Let_def)
  qed
qed

lemma applyAttribute_font:
  "fc_font fc \<noteq> None \<Longrightarrow> fc_font (applyAttribute i fc attr) \<noteq> None"
  by (simp add: applyAttribute_def Let_def split: option.splits)

lemma foldl_applyAttribute_font:
  "fc_font fc \<noteq> None \<Longrightarrow> fc_font (foldl (applyAttribute i) fc attrs) \<noteq> None"
proof (induction attrs arbitrary: fc)
  case Nil
  then show ?case by simp
next
  case (Cons a attrs)
  have "fc_font (applyAttribute i fc a) \<noteq> None"
    using Cons.prems by (rule applyAttribute_font)
  then have "fc_font (foldl (applyAttribute i) (applyAttribute i fc a) attrs) \<noteq> None"
    by (rule Cons.IH)
  then show ?case by simp
qed

lemma resolveStyle_font: "\<exists>f. fc_font (resolveStyle M atext i) = Some f"
  using foldl_applyAttribute_font
    [of "\<lparr>fc_font = Some (defaultFont M), fc_colour = 0xff000000\<rparr>" i "attributes atext"]
  by (simp add: resolveStyle_def)

lemma last_concat_nonempty:
  "xs \<noteq> [] \<Longrightarrow> list_all (\<lambda>x. x \<noteq> []) xs \<Longrightarrow> last (concat xs) = last (last xs)"
proof (induction xs)
  case Nil
  then show ?case by simp
next
  case (Cons a xs)
  show ?case
  proof (cases "xs = []")
    case True
    then show ?thesis by simp
  next
    case False
    then have c: "concat xs \<noteq> []" using Cons.prems(2) by (cases xs) auto
    have "last (concat xs) = last (last xs)"
      using Cons.IH False Cons.prems(2) by simp
    then show ?thesis using False c by simp
  qed
qed

lemma substring_tail:
  assumes "0 \<le> a" "a < int (length s)"
  shows "substring s a (int (length s)) = drop (nat a) s"
  using assms by (simp add: substring_def Let_def max_def)

lemma addTextRuns_last:
  assumes "2 \<le> length (getText atext)"
  shows "addTextRuns M atext \<noteq> []
    \<and> Some (tok_font (last (addTextRuns M atext)))
        = fc_font (resolveStyle M atext (int (length (getText atext)) - 2))
    \<and> tok_colour (last (addTextRuns M atext))
        = fc_colour (resolveStyle M atext (int (length (getText atext)) - 2))
    \<and> last (tok_text (last (addTextRuns M atext))) = last (getText atext)"
proof -
  define n where "n = int (length (getText atext))"
  define fc where "fc = resolveStyle M atext (n - 2)"
  have n2: "2 \<le> n" using assms by (simp add: n_def)
  have "\<exists>rs pre. 0 \<le> rs \<and> rs < n \<and>
          styleLoop M atext n 0 0 \<lparr>fc_font = None, fc_colour = 0xff000000\<rparr> [] =
            pre @ [\<lparr>ra_fontAndColour = resolveStyle M atext (n - 2),
                    ra_range = \<lparr>rstart = rs, rend = n\<rparr>\<rparr>]"
    using n2 by (intro styleLoop_last) simp_all
  then obtain rs pre where r: "0 \<le> rs" "rs < n"
    "getRunAttributes M atext = pre @ [\<lparr>ra_fontAndColour = fc, ra_range = \<lparr>rstart = rs, rend = n\<rparr>\<rparr>]"
    unfolding getRunAttributes_def n_def [symmetric] fc_def by blast
  obtain f where f: "fc_font fc = Some f"
    using resolveStyle_font [of M atext "n - 2"] by (auto simp: fc_def)
  define toks0 where "toks0 = foldl (appendRun M atext) [] pre"
  define s where "s = substring (getText atext) rs n"
  have sd: "s = drop (nat rs) (getText atext)"
    unfolding s_def n_def using substring_tail r(1,2) n_def by simp
  have rl: "nat rs < length (getText atext)" using r(1,2) n_def by simp
  have sne: "s \<noteq> []" using sd rl by simp
  have sl: "last s = last (getText atext)"
    using sd rl by (simp add: last_drop)
  have e: "addTextRuns M atext = appendLoop M f (fc_colour fc) s [] 0 toks0"
    by (simp add: addTextRuns_def r(3) toks0_def appendRun_def f appendText_def s_def)
  obtain new where new: "appendLoop M f (fc_colour fc) s [] 0 toks0 = toks0 @ new"
    "concat (map tok_text new) = [] @ s" "list_all (styled f (fc_colour fc)) new"
    using appendLoop_new [of M f "fc_colour fc" s "[]" 0 toks0] by blast
  have nne: "new \<noteq> []" using new(2) sne by auto
  have la: "styled f (fc_colour fc) (last new)"
    using new(3) nne by (simp add: list_all_iff)
  have ne2: "list_all (\<lambda>x. x \<noteq> []) (map tok_text new)"
    using new(3) by (simp add: list_all_iff styled_def)
  have "last (concat (map tok_text new)) = last (last (map tok_text new))"
    using last_concat_nonempty [OF _ ne2] nne by simp
  then have lt: "last (tok_text (last new)) = last s"
    using new(2) nne by (simp add: last_map)
  show ?thesis
    unfolding n_def [symmetric] fc_def [symmetric]
    using e new(1) nne la lt sl f by (simp add: styled_def)
qed

lemma buildLoop_last_run:
  "tokens \<noteq> [] \<Longrightarrow>
   layoutLines (buildLoop M tokens b) \<noteq> []
   \<and> runs (last (layoutLines (buildLoop M tokens b))) \<noteq> []
   \<and> run_font (last (runs (last (layoutLines (buildLoop M tokens b))))) = tok_font (last tokens)
   \<and> run_colour (last (runs (last (layoutLines (buildLoop M tokens b))))) = tok_colour (last tokens)"
proof (induction M tokens b rule: buildLoop.induct)
  case (1 M b)
  then show ?case by simp
next
  case (2 M t b)
  show ?case by (simp add: buildStep_def Let_def addRun_def)
next
  case (3 M t n ts b)
  then show ?case by simp
qed

lemma shiftLines_runs: "map runs (shiftLines toks w c i ls) = map runs ls"
  by (induction ls arbitrary: i) (simp_all add: Let_def)

lemma runs_shiftOrigin: "runs (shiftOrigin d l) = runs l"
  by (simp add: shiftOrigin_def)

lemma recalculateWidth_runs:
  "map runs (lines (recalculateWidth atext layout)) = map runs (lines layout)"
  by (simp add: recalculateWidth_def comp_def runs_shiftOrigin)

lemma justifyLines_runs:
  "map runs (lines (justifyLines M atext toks layout)) = map runs (lines layout)"
  by (simp add: justifyLines_def shiftLines_runs)

lemma lastRun_cong:
  assumes "map runs (lines a) = map runs (lines b)"
  shows "lastRun a = lastRun b \<and> (lines a = [] \<longleftrightarrow> lines b = [])"
proof (cases "lines b = []")
  case True
  then show ?thesis using assms by (simp add: lastRun_def)
next
  case False
  then have na: "lines a \<noteq> []" using assms by auto
  have "last (map runs (lines a)) = last (map runs (lines b))" using assms by simp
  then have "runs (last (lines a)) = runs (last (lines b))"
    using na False by (simp add: last_map)
  then show ?thesis using na False by (simp add: lastRun_def)
qed

lemma layoutRuns_last:
  assumes "toks \<noteq> []"
  shows "fst (layoutRuns mw toks) \<noteq> []
    \<and> tok_font (last (fst (layoutRuns mw toks))) = tok_font (last toks)
    \<and> tok_colour (last (fst (layoutRuns mw toks))) = tok_colour (last toks)"
proof -
  have s: "map static (fst (layoutRuns mw toks)) = map static toks"
    using layoutRuns_fst [of mw toks] layoutLoop_master [of mw 0 0 0 0 0 toks] by simp
  then have ne: "fst (layoutRuns mw toks) \<noteq> []" using assms by auto
  have "last (map static (fst (layoutRuns mw toks))) = last (map static toks)" using s by simp
  then have "static (last (fst (layoutRuns mw toks))) = static (last toks)"
    using ne assms by (simp add: last_map)
  then show ?thesis using ne by (simp add: static_def)
qed

lemma standard_runs:
  "map runs (lines (recalculateWidth atext (createStandardLayout M atext layout)))
     = map runs (lines (buildLines M atext layout))"
  by (simp only: recalculateWidth_runs createStandardLayout_def TokenList_createLayout_def
      justifyLines_runs)

lemma createLayout_last_run:
  assumes n: "createNativeLayout M atext (clearedLayout atext maxWidth layout) = None"
    and l: "2 \<le> length (getText atext)"
  shows "lines (createLayout M atext maxWidth layout) \<noteq> []
    \<and> Some (run_font (lastRun (createLayout M atext maxWidth layout)))
        = fc_font (resolveStyle M atext (int (length (getText atext)) - 2))
    \<and> run_colour (lastRun (createLayout M atext maxWidth layout))
        = fc_colour (resolveStyle M atext (int (length (getText atext)) - 2))"
proof -
  define C where "C = clearedLayout atext maxWidth layout"
  define T where "T = layoutTokens M atext (layoutWidth C)"
  have e: "createLayout M atext maxWidth layout
             = recalculateWidth atext (createStandardLayout M atext C)"
    using n by (simp add: createLayout_def C_def)
  have a: "addTextRuns M atext \<noteq> []"
    "Some (tok_font (last (addTextRuns M atext)))
        = fc_font (resolveStyle M atext (int (length (getText atext)) - 2))"
    "tok_colour (last (addTextRuns M atext))
        = fc_colour (resolveStyle M atext (int (length (getText atext)) - 2))"
    using addTextRuns_last [OF l, of M] by simp_all
  have t: "T \<noteq> []" "tok_font (last T) = tok_font (last (addTextRuns M atext))"
    "tok_colour (last T) = tok_colour (last (addTextRuns M atext))"
    using layoutRuns_last [OF a(1)] by (simp_all add: T_def layoutTokens_def)
  have b: "lines (buildLines M atext C) = layoutLines (buildLoop M T (initBuilder (lines C)))"
    by (simp add: buildLines_def T_def)
  have r: "lines (buildLines M atext C) \<noteq> []"
    "run_font (lastRun (buildLines M atext C)) = tok_font (last T)"
    "run_colour (lastRun (buildLines M atext C)) = tok_colour (last T)"
    using buildLoop_last_run [OF t(1), of M "initBuilder (lines C)"]
    by (simp_all add: b lastRun_def)
  have c: "lastRun (createLayout M atext maxWidth layout) = lastRun (buildLines M atext C)"
    "lines (createLayout M atext maxWidth layout) \<noteq> []"
    using lastRun_cong [OF standard_runs [of atext M C]] r(1) by (simp_all add: e)
  show ?thesis
    using c r a t by simp
qed

lemma getRunAttributes_single:
  "length (getText atext) = 1 \<Longrightarrow> getRunAttributes M atext = []"
  by (simp add: getRunAttributes_def styleLoop.simps [of _ _ 1 0] styleLoop.simps [of _ _ 1 1]
      Let_def)

lemma createLayout_single:
  assumes n: "createNativeLayout M atext (clearedLayout atext maxWidth layout) = None"
    and l: "length (getText atext) = 1"
  shows "lines (createLayout M atext maxWidth layout) = []"
proof -
  have t: "addTextRuns M atext = []"
    by (simp add: addTextRuns_def getRunAttributes_single [OF l])
  have "layoutTokens M atext w = []" for w
    by (simp add: layoutTokens_def t layoutRuns_def layoutLoop.simps [of _ 0 _ _ _ _ "[]"])
  then have "lines (buildLines M atext (clearedLayout atext maxWidth layout)) = []"
    by (simp add: buildLines_def initBuilder_def clearedLayout_def)
  then have "map runs (lines (createLayout M atext maxWidth layout)) = []"
    using n standard_runs [of atext M "clearedLayout atext maxWidth layout"]
    by (simp add: createLayout_def)
  then show ?thesis by simp
qed

lemma getRunAttributes_last:
  assumes "2 \<le> length (getText atext)"
  shows "getRunAttributes M atext \<noteq> []
    \<and> rend (ra_range (last (getRunAttributes M atext))) = int (length (getText atext))
    \<and> ra_fontAndColour (last (getRunAttributes M atext))
        = resolveStyle M atext (int (length (getText atext)) - 2)"
proof -
  define n where "n = int (length (getText atext))"
  have n2: "2 \<le> n" using assms by (simp add: n_def)
  have "\<exists>rs pre. 0 \<le> rs \<and> rs < n \<and>
          styleLoop M atext n 0 0 \<lparr>fc_font = None, fc_colour = 0xff000000\<rparr> [] =
            pre @ [\<lparr>ra_fontAndColour = resolveStyle M atext (n - 2),
                    ra_range = \<lparr>rstart = rs, rend = n\<rparr>\<rparr>]"
    using n2 by (intro styleLoop_last) simp_all
  then obtain rs pre where
    "getRunAttributes M atext = pre @ [\<lparr>ra_fontAndColour = resolveStyle M atext (n - 2),
                                        ra_range = \<lparr>rstart = rs, rend = n\<rparr>\<rparr>]"
    unfolding getRunAttributes_def n_def [symmetric] by blast
  then show ?thesis
    unfolding n_def [symmetric] by simp
qed

text \<open>
  C10: for every text of length at least \<open>2\<close>, the last style range that attribute
  resolution emits ends at the length of the string and carries the style resolved for
  the second-to-last character; the last token, which ends with the last character of
  the text, has that font and colour, and so has the last run of the last line of the
  layout (when the standard layout runs). For a text of length \<open>1\<close> no style range is
  emitted and the layout has no line.
\<close>

theorem last_range_takes_previous_style:
  assumes "createNativeLayout M atext (clearedLayout atext maxWidth layout) = None"
  shows "(2 \<le> length (getText atext) \<longrightarrow>
            getRunAttributes M atext \<noteq> []
          \<and> rend (ra_range (last (getRunAttributes M atext))) = int (length (getText atext))
          \<and> ra_fontAndColour (last (getRunAttributes M atext))
              = resolveStyle M atext (int (length (getText atext)) - 2)
          \<and> addTextRuns M atext \<noteq> []
          \<and> last (tok_text (last (addTextRuns M atext))) = last (getText atext)
          \<and> Some (tok_font (last (addTextRuns M atext)))
              = fc_font (resolveStyle M atext (int (length (getText atext)) - 2))
          \<and> tok_colour (last (addTextRuns M atext))
              = fc_colour (resolveStyle M atext (int (length (getText atext)) - 2))
          \<and> lines (createLayout M atext maxWidth layout) \<noteq> []
          \<and> Some (run_font (lastRun (createLayout M atext maxWidth layout)))
              = fc_font (resolveStyle M atext (int (length (getText atext)) - 2))
          \<and> run_colour (lastRun (createLayout M atext maxWidth layout))
              = fc_colour (resolveStyle M atext (int (length (getText atext)) - 2)))
       \<and> (length (getText atext) = 1 \<longrightarrow>
            getRunAttributes M atext = []
          \<and> lines (createLayout M atext maxWidth layout) = [])"
  using getRunAttributes_last [of atext M] addTextRuns_last [of atext M]
    createLayout_last_run [OF assms] getRunAttributes_single [of atext M]
    createLayout_single [OF assms]
  by simp

theorem last_range_takes_previous_style_witness:
  "resolveStyle fixedPitch twoStyleText 0 = \<lparr>fc_font = Some 0, fc_colour = 0xff000000\<rparr>
   \<and> resolveStyle fixedPitch twoStyleText 1 = \<lparr>fc_font = Some 7, fc_colour = 0xffff0000\<rparr>
   \<and> ra_range (last (getRunAttributes fixedPitch twoStyleText)) = \<lparr>rstart = 0, rend = 2\<rparr>
   \<and> tok_text (last (addTextRuns fixedPitch twoStyleText)) = ''ab''
   \<and> tok_font (last (addTextRuns fixedPitch twoStyleText)) = 0
   \<and> run_font (lastRun (createLayout fixedPitch twoStyleText 1000 emptyLayout)) = 0
   \<and> run_colour (lastRun (createLayout fixedPitch twoStyleText 1000 emptyLayout)) = 0xff000000
   \<and> lines (createLayout fixedPitch (plainText ''a'' 1) 1000 emptyLayout) = []"
proof -
  have n2: "createNativeLayout fixedPitch twoStyleText
              (clearedLayout twoStyleText 1000 emptyLayout) = None"
    by (simp add: fixedPitch_def)
  have n1: "createNativeLayout fixedPitch (plainText ''a'' 1)
              (clearedLayout (plainText ''a'' 1) 1000 emptyLayout) = None"
    by (simp add: fixedPitch_def)
  have l2: "length (getText twoStyleText) = 2" by (simp add: twoStyleText_def)
  have l1: "length (getText (plainText ''a'' 1)) = 1" by (simp add: plainText_def)
  have r0: "resolveStyle fixedPitch twoStyleText 0 = \<lparr>fc_font = Some 0, fc_colour = 0xff000000\<rparr>"
    by code_simp
  have r1: "resolveStyle fixedPitch twoStyleText 1 = \<lparr>fc_font = Some 7, fc_colour = 0xffff0000\<rparr>"
    by code_simp
  have rg: "ra_range (last (getRunAttributes fixedPitch twoStyleText)) = \<lparr>rstart = 0, rend = 2\<rparr>"
    by code_simp
  have tt: "tok_text (last (addTextRuns fixedPitch twoStyleText)) = ''ab''"
    by code_simp
  show ?thesis
    using last_range_takes_previous_style [OF n2] last_range_takes_previous_style [OF n1]
      l1 l2 r0 r1 rg tt
    by simp
qed

end
